theory Spec2Isabelle
  imports Complex_Main
begin

section \<open>Color accessibility analysis (src/utils/colorUtils.ts)\<close>

text \<open>
  JavaScript strings are modelled as \<open>string\<close>: lists of code units below 256. JavaScript
  numbers are modelled by the real numbers they denote, without the rounding of double
  precision arithmetic: \<open>Math.pow\<close> is \<open>powr\<close> on a positive base, and
  \<open>parseFloat(x.toFixed(2))\<close>, for \<open>x\<close> not negative, is the multiple of 1/100 nearest to
  \<open>x\<close>, the larger one when two are equally near (the rule of Number.prototype.toFixed).
\<close>

record rgb =
  r :: nat
  g :: nat
  b :: nat

text \<open>
  \<open>ColorMetrics\<close> as \<open>types.ts\<close> declares it. The field \<open>accessibility\<close> is a string there;
  the four constructors are the four strings \<open>analyzeColor\<close> assigns to it.
\<close>

datatype accessibility = AAA | AA | Fail | Invalid

record ColorMetrics =
  hex :: string
  contrastWhite :: real
  contrastBlack :: real
  accessibility :: accessibility

text \<open>The character class \<open>[a-f\d]\<close> under the \<open>i\<close> flag.\<close>

definition isHexDigit :: "char \<Rightarrow> bool" where
  "isHexDigit c \<longleftrightarrow> c \<in> set ''0123456789abcdefABCDEF''"

text \<open>The value of one digit as \<open>parseInt(_, 16)\<close> reads it.\<close>

definition hexDigitValue :: "char \<Rightarrow> nat" where
  "hexDigitValue c =
     (let n = (of_char c :: nat) in
      if 48 \<le> n \<and> n \<le> 57 then n - 48
      else if 97 \<le> n \<and> n \<le> 102 then n - 87
      else n - 55)"

definition parseInt16 :: "char \<Rightarrow> char \<Rightarrow> nat" where
  "parseInt16 hi lo = 16 * hexDigitValue hi + hexDigitValue lo"

text \<open>Three groups of two hex digits and then the end of the input.\<close>

fun matchGroups :: "string \<Rightarrow> rgb option" where
  "matchGroups [r1, r2, g1, g2, b1, b2] =
     (if isHexDigit r1 \<and> isHexDigit r2 \<and> isHexDigit g1 \<and> isHexDigit g2
         \<and> isHexDigit b1 \<and> isHexDigit b2
      then Some \<lparr>r = parseInt16 r1 r2, g = parseInt16 g1 g2, b = parseInt16 b1 b2\<rparr>
      else None)"
| "matchGroups _ = None"

text \<open>
  \<open>/^#?([a-f\d]{2})([a-f\d]{2})([a-f\d]{2})$/i\<close>: the optional marker is tried first
  and, when the rest does not match after it, the match is retried without it.
\<close>

definition hexToRgb :: "string \<Rightarrow> rgb option" where
  "hexToRgb s =
     (case (case s of c # rest \<Rightarrow> (if c = CHR ''#'' then matchGroups rest else None)
                    | [] \<Rightarrow> None) of
        Some v \<Rightarrow> Some v
      | None \<Rightarrow> matchGroups s)"

definition channel :: "nat \<Rightarrow> real" where
  "channel v0 =
     (let v = real v0 / 255 in
      if v \<le> 0.03928 then v / 12.92 else ((v + 0.055) / 1.055) powr 2.4)"

definition luminance :: "nat \<Rightarrow> nat \<Rightarrow> nat \<Rightarrow> real" where
  "luminance r0 g0 b0 = channel r0 * 0.2126 + channel g0 * 0.7152 + channel b0 * 0.0722"

definition calculateContrast :: "rgb \<Rightarrow> rgb \<Rightarrow> real" where
  "calculateContrast rgb1 rgb2 =
     (let lum1 = luminance (r rgb1) (g rgb1) (b rgb1);
          lum2 = luminance (r rgb2) (g rgb2) (b rgb2);
          brightest = max lum1 lum2;
          darkest = min lum1 lum2
      in (brightest + 0.05) / (darkest + 0.05))"

definition toFixed2 :: "real \<Rightarrow> real" where
  "toFixed2 x = of_int \<lfloor>x * 100 + 1 / 2\<rfloor> / 100"

definition white :: rgb where
  "white = \<lparr>r = 255, g = 255, b = 255\<rparr>"

definition black :: rgb where
  "black = \<lparr>r = 0, g = 0, b = 0\<rparr>"

definition classify :: "real \<Rightarrow> real \<Rightarrow> accessibility" where
  "classify cw cb =
     (let a0 = Fail;
          a1 = (if cw \<ge> 4.5 \<or> cb \<ge> 4.5 then AA else a0);
          a2 = (if cw \<ge> 7 \<or> cb \<ge> 7 then AAA else a1)
      in a2)"

definition analyzeColor :: "string \<Rightarrow> ColorMetrics" where
  "analyzeColor s =
     (case hexToRgb s of
        None \<Rightarrow> \<lparr>hex = s, contrastWhite = 0, contrastBlack = 0, accessibility = Invalid\<rparr>
      | Some c \<Rightarrow>
          (let cw = toFixed2 (calculateContrast c white);
               cb = toFixed2 (calculateContrast c black)
           in \<lparr>hex = s, contrastWhite = cw, contrastBlack = cb,
               accessibility = classify cw cb\<rparr>))"

text \<open>
  The spec's wording of a well-formed input: six hex digits, upper or lower case, after an
  optional leading \<open>#\<close>.
\<close>

definition spec_valid_hex :: "string \<Rightarrow> bool" where
  "spec_valid_hex s \<longleftrightarrow>
     (let body = (if s \<noteq> [] \<and> hd s = CHR ''#'' then tl s else s)
      in length body = 6 \<and> list_all isHexDigit body)"

section \<open>Application state and generation orchestration (App component)\<close>

text \<open>
  The component's state hooks are the fields of one record, updated by explicit state
  passing. \<open>console\<close> collects the lines written with \<open>console.error\<close>. A rejected promise
  carries an Error object, identified with its message. All callbacks run on one thread,
  each to completion, so a run is the sequence of its callbacks in the order in which the
  awaited operations settle.
\<close>

text \<open>
  \<open>AnalysisState\<close>, \<open>BrandStyle\<close> and \<open>GeneratedAsset\<close> as \<open>types.ts\<close> declares them.
  \<open>AnalysisState\<close> is a status with an optional message; the code sets the message with
  the status \<open>error\<close> only, so the constructor \<open>error\<close> carries it. The field \<open>id\<close> of an
  asset is named \<open>assetId\<close> here, and its \<open>type\<close>, which is \<open>'logo'\<close> or \<open>'social'\<close>, is a
  string.
\<close>

datatype status = idle | analyzing | generating | complete | error string

record BrandStyle =
  brandName :: string
  themeDescription :: string
  dominantColors :: "string list"
  fontStyle :: string
  layoutVibe :: string

record GeneratedAsset =
  assetId :: string
  type :: string
  subtype :: string
  imageUrl :: string
  description :: string

record app_state =
  hasKey :: bool
  state :: status
  brandStyle :: "BrandStyle option"
  assets :: "GeneratedAsset list"
  progress :: string
  logs :: "string list"
  analyzedUrl :: string
  console :: "string list"

datatype 'a settled = Fulfilled 'a | Rejected string

definition LOGO_VARIANTS :: "string list" where
  "LOGO_VARIANTS = [''Minimalist Wordmark'', ''Abstract Icon'', ''App Icon'']"

definition BRAND_ASSETS :: "string list" where
  "BRAND_ASSETS = [''Billboard'', ''Merch'', ''Poster'']"

text \<open>
  \<open>addLog\<close> appends the message behind the time of day. The clock is a parameter:
  \<open>clock k\<close> is the time string read when the entry at position \<open>k\<close> is appended.
\<close>

definition addLog :: "(nat \<Rightarrow> string) \<Rightarrow> string \<Rightarrow> app_state \<Rightarrow> app_state" where
  "addLog clock msg w = w\<lparr>logs := logs w @ [''['' @ clock (length (logs w)) @ ''] '' @ msg]\<rparr>"

definition consoleError :: "string \<Rightarrow> app_state \<Rightarrow> app_state" where
  "consoleError line w = w\<lparr>console := console w @ [line]\<rparr>"

definition appendAsset :: "GeneratedAsset \<Rightarrow> app_state \<Rightarrow> app_state" where
  "appendAsset a w = w\<lparr>assets := assets w @ [a]\<rparr>"

text \<open>
  The reply of the asset-generation collaborator to one request, as the task reads it: the
  \<open>inlineData.data\<close> of each part of \<open>candidates[0].content.parts\<close> (\<open>None\<close> for a part
  without one; no parts when a link of the optional chain is missing), and the stamp the
  task puts into the asset's id (\<open>Date.now()\<close>, \<open>Math.random()\<close>). A rejected call is a
  collaborator error, or a client that could not be built.
\<close>

datatype reply = Reply string "string option list"

text \<open>The loop over the parts: the first part with non-empty data gives the image.\<close>

fun first_image :: "string option list \<Rightarrow> string" where
  "first_image [] = []"
| "first_image (p # ps) =
     (case p of
        Some d \<Rightarrow> if d \<noteq> [] then ''data:image/png;base64,'' @ d else first_image ps
      | None \<Rightarrow> first_image ps)"

definition generateLogoVariant :: "string \<Rightarrow> reply settled \<Rightarrow> GeneratedAsset settled" where
  "generateLogoVariant variant rp =
     (case rp of
        Rejected m \<Rightarrow> Rejected m
      | Fulfilled (Reply stamp ps) \<Rightarrow>
          (let url = first_image ps in
           if url = [] then Rejected ''Failed to generate logo image''
           else Fulfilled \<lparr>assetId = ''logo-'' @ stamp, type = ''logo'', subtype = variant,
                           imageUrl = url, description = variant @ '' logo variant''\<rparr>))"

definition generateBrandAsset :: "string \<Rightarrow> reply settled \<Rightarrow> GeneratedAsset settled" where
  "generateBrandAsset ty rp =
     (case rp of
        Rejected m \<Rightarrow> Rejected m
      | Fulfilled (Reply stamp ps) \<Rightarrow>
          (let url = first_image ps in
           if url = [] then Rejected (''Failed to generate '' @ ty)
           else Fulfilled \<lparr>assetId = ''asset-'' @ ty @ ''-'' @ stamp, type = ''social'',
                           subtype = ty, imageUrl = url, description = ty @ '' Mockup''\<rparr>))"

text \<open>
  A generation task is one call of \<open>generateLogoVariant\<close> or \<open>generateBrandAsset\<close>. What the
  collaborator does is the environment's choice: how the primary request settles, if it
  does, and the second-wave requests in the order in which they settle, each with its
  reply. A task that is not listed never settles.
\<close>

datatype task = LogoTask string | BrandTask string

record gen_env =
  primary :: "reply settled option"
  completions :: "(task \<times> reply settled) list"

fun task_outcome :: "task \<Rightarrow> reply settled \<Rightarrow> GeneratedAsset settled" where
  "task_outcome (LogoTask v) rp = generateLogoVariant v rp"
| "task_outcome (BrandTask ty) rp = generateBrandAsset ty rp"

text \<open>
  The callbacks chained on one second-wave task, and how the chained promise settles.
  A brand asset task has a \<open>then\<close> and a \<open>catch\<close>; an extra logo task has a \<open>then\<close> only.
\<close>

fun settle_task ::
  "(nat \<Rightarrow> string) \<Rightarrow> task \<Rightarrow> GeneratedAsset settled \<Rightarrow> app_state \<Rightarrow> app_state \<times> unit settled"
where
  "settle_task clock (BrandTask ty) (Fulfilled a) w =
     (appendAsset a (addLog clock (''Generated '' @ ty @ '' asset.'') w), Fulfilled ())"
| "settle_task clock (BrandTask ty) (Rejected m) w =
     (addLog clock (''Error generating '' @ ty @ '': '' @ m)
        (consoleError (''Failed to generate '' @ ty) w), Fulfilled ())"
| "settle_task clock (LogoTask v) (Fulfilled a) w = (appendAsset a w, Fulfilled ())"
| "settle_task clock (LogoTask v) (Rejected m) w = (w, Rejected m)"

text \<open>
  A run of \<open>startGeneration\<close>: the application state, the dispatched tasks that have not
  settled, how the promise returned by \<open>startGeneration\<close> has settled (if it has), and the
  tasks that were still in flight at that moment.
\<close>

record run =
  world :: app_state
  pending :: "task list"
  returned :: "unit settled option"
  inflight_at_return :: "task list"

definition second_wave :: "task list" where
  "second_wave = map BrandTask BRAND_ASSETS @ map LogoTask (drop 1 LOGO_VARIANTS)"

text \<open>The statements after \<open>await Promise.all(...)\<close>.\<close>

definition after_join :: "(nat \<Rightarrow> string) \<Rightarrow> app_state \<Rightarrow> app_state" where
  "after_join clock w =
     addLog clock ''All assets generated successfully.'' (w\<lparr>state := complete, progress := ''''\<rparr>)"

text \<open>
  \<open>Promise.all\<close> over the chained promises rejects as soon as one of them rejects and
  fulfils once all of them have fulfilled; \<open>startGeneration\<close> then settles the same way,
  and \<open>k\<close> is what its caller does at that moment. Tasks that settle later still run
  their callbacks.
\<close>

fun wave ::
  "(nat \<Rightarrow> string) \<Rightarrow> (unit settled \<Rightarrow> app_state \<Rightarrow> app_state) \<Rightarrow>
   (task \<times> reply settled) list \<Rightarrow> run \<Rightarrow> run"
where
  "wave clock k [] rn = rn"
| "wave clock k ((t, rep) # es) rn =
     (if t \<notin> set (pending rn) then wave clock k es rn
      else
        let (w1, res) = settle_task clock t (task_outcome t rep) (world rn);
            pend = removeAll t (pending rn)
        in wave clock k es
             (case returned rn of
                Some s \<Rightarrow> rn\<lparr>world := w1, pending := pend\<rparr>
              | None \<Rightarrow>
                  (case res of
                     Rejected m \<Rightarrow>
                       \<lparr>world = k (Rejected m) w1, pending = pend,
                        returned = Some (Rejected m), inflight_at_return = pend\<rparr>
                   | Fulfilled u \<Rightarrow>
                       if pend = []
                       then \<lparr>world = k (Fulfilled ()) (after_join clock w1), pending = pend,
                             returned = Some (Fulfilled ()), inflight_at_return = pend\<rparr>
                       else rn\<lparr>world := w1, pending := pend\<rparr>)))"

definition startGeneration ::
  "(nat \<Rightarrow> string) \<Rightarrow> (unit settled \<Rightarrow> app_state \<Rightarrow> app_state) \<Rightarrow> gen_env \<Rightarrow>
   BrandStyle \<Rightarrow> app_state \<Rightarrow> run"
where
  "startGeneration clock k env style w =
     (let w1 = w\<lparr>brandStyle := Some style, state := generating,
                  progress := ''Synthesizing brand identity for '' @ brandName style @ ''...''\<rparr>;
          w2 = addLog clock ''Analysis complete. Starting asset generation...'' w1;
          w3 = w2\<lparr>assets := []\<rparr>;
          w4 = addLog clock ''Generating primary logo...'' w3
      in case primary env of
           None \<Rightarrow>
             \<lparr>world = w4, pending = [LogoTask (LOGO_VARIANTS ! 0)],
              returned = None, inflight_at_return = []\<rparr>
         | Some rep \<Rightarrow>
             wave clock k (completions env)
               \<lparr>world = (case generateLogoVariant (LOGO_VARIANTS ! 0) rep of
                            Fulfilled a \<Rightarrow> appendAsset a w4
                          | Rejected m \<Rightarrow> consoleError ''Primary logo failed'' w4),
                pending = second_wave, returned = None, inflight_at_return = []\<rparr>)"

text \<open>
  What \<open>handleAnalyze\<close> observes of \<open>analyzeBrandFromUrl(url, addLog)\<close>: the messages passed
  to \<open>addLog\<close> and then the settlement, typed by the signature \<open>Promise<BrandStyle>\<close>
  (\<open>None\<close>: the promise never settles).
\<close>

record extraction =
  ext_logs :: "string list"
  ext_result :: "BrandStyle settled option"

text \<open>The \<open>catch\<close> block of \<open>handleAnalyze\<close>.\<close>

definition analyze_catch :: "(nat \<Rightarrow> string) \<Rightarrow> string \<Rightarrow> app_state \<Rightarrow> app_state" where
  "analyze_catch clock m w =
     addLog clock (''FATAL ERROR: '' @ m) ((consoleError m w)\<lparr>state := error m\<rparr>)"

definition analyze_cont :: "(nat \<Rightarrow> string) \<Rightarrow> unit settled \<Rightarrow> app_state \<Rightarrow> app_state" where
  "analyze_cont clock s w = (case s of Rejected m \<Rightarrow> analyze_catch clock m w | Fulfilled u \<Rightarrow> w)"

definition handleAnalyze ::
  "(nat \<Rightarrow> string) \<Rightarrow> extraction \<Rightarrow> gen_env \<Rightarrow> string \<Rightarrow> app_state \<Rightarrow> run"
where
  "handleAnalyze clock ext env url w =
     (let w1 = w\<lparr>analyzedUrl := url, state := analyzing,
                  progress := ''Capturing site visuals & analyzing DNA with Gemini 3 Pro...'',
                  logs := []\<rparr>;
          w2 = addLog clock (''Starting analysis for: '' @ url) w1;
          w3 = foldl (\<lambda>v m. addLog clock m v) w2 (ext_logs ext)
      in case ext_result ext of
           None \<Rightarrow> \<lparr>world = w3, pending = [], returned = None, inflight_at_return = []\<rparr>
         | Some (Rejected m) \<Rightarrow>
             \<lparr>world = analyze_catch clock m w3, pending = [], returned = None,
              inflight_at_return = []\<rparr>
         | Some (Fulfilled style) \<Rightarrow> startGeneration clock (analyze_cont clock) env style w3)"

text \<open>The number of generation tasks of one run: the primary logo and the second wave.\<close>

definition task_count :: nat where
  "task_count = 1 + length second_wave"

text \<open>
  An environment in which every dispatched task settles: the primary task does, and the
  completions are the second-wave tasks in some order.
\<close>

definition all_settle :: "gen_env \<Rightarrow> bool" where
  "all_settle env \<longleftrightarrow>
     primary env \<noteq> None \<and> distinct (map fst (completions env))
     \<and> set (map fst (completions env)) = set second_wave"

definition is_rejected :: "'a settled \<Rightarrow> bool" where
  "is_rejected s = (case s of Rejected m \<Rightarrow> True | Fulfilled a \<Rightarrow> False)"

text \<open>The number of tasks of the run that fail.\<close>

definition failures :: "gen_env \<Rightarrow> nat" where
  "failures env =
     (case primary env of
        Some rep \<Rightarrow> if is_rejected (generateLogoVariant (LOGO_VARIANTS ! 0) rep) then 1 else 0
      | None \<Rightarrow> 0)
     + length (filter (\<lambda>e. is_rejected (task_outcome (fst e) (snd e))) (completions env))"

text \<open>
  The assets of the tasks that succeed, in completion order, and the message of the first
  extra logo task that fails, if one does.
\<close>

fun delivered :: "(task \<times> reply settled) list \<Rightarrow> GeneratedAsset list" where
  "delivered [] = []"
| "delivered ((t, rp) # es) =
     (case task_outcome t rp of Fulfilled a \<Rightarrow> a # delivered es | Rejected m \<Rightarrow> delivered es)"

fun first_rejection :: "(task \<times> reply settled) list \<Rightarrow> string option" where
  "first_rejection [] = None"
| "first_rejection ((BrandTask ty, rp) # es) = first_rejection es"
| "first_rejection ((LogoTask v, rp) # es) =
     (case generateLogoVariant v rp of
        Rejected m \<Rightarrow> Some m
      | Fulfilled a \<Rightarrow> first_rejection es)"

text \<open>\<open>getDemoBrandStyle\<close>, and the application state before the first run.\<close>

definition getDemoBrandStyle :: BrandStyle where
  "getDemoBrandStyle =
     \<lparr>brandName = ''NeonFlux'',
      themeDescription =
        ''Cyberpunk aesthetic with high-contrast neon accents against deep void black.'',
      dominantColors = [''#09090B'', ''#00F0FF'', ''#7000FF'', ''#FF003C'', ''#FFFFFF''],
      fontStyle = ''Futuristic Sans-Serif (Orbitron/Inter)'',
      layoutVibe = ''Asymmetrical grid, glowing borders, glitch effects''\<rparr>"

definition initial_app :: app_state where
  "initial_app =
     \<lparr>hasKey = True, state = idle, brandStyle = None, assets = [], progress = [],
      logs = [], analyzedUrl = [], console = []\<rparr>"

text \<open>
  Concrete collaborator replies and environments: a reply with an image, a reply without
  one, a clock that always shows noon, and an extraction that returns the demo style. In
  \<open>one_logo_fails\<close> the reply to the Abstract Icon request carries no image payload and every
  other task succeeds; in \<open>logo_rejected_first\<close> the Abstract Icon request is rejected before
  any other second-wave task has settled.
\<close>

definition image_reply :: "string \<Rightarrow> reply settled" where
  "image_reply stamp = Fulfilled (Reply stamp [Some ''iVBORw0KGgo=''])"

definition empty_reply :: "string \<Rightarrow> reply settled" where
  "empty_reply stamp = Fulfilled (Reply stamp [None])"

definition noon :: "nat \<Rightarrow> string" where
  "noon k = ''12:00:00''"

definition demo_extraction :: extraction where
  "demo_extraction = \<lparr>ext_logs = [], ext_result = Some (Fulfilled getDemoBrandStyle)\<rparr>"

definition one_logo_fails :: gen_env where
  "one_logo_fails =
     \<lparr>primary = Some (image_reply ''1''),
      completions =
        [(BrandTask ''Billboard'', image_reply ''2''),
         (BrandTask ''Merch'', image_reply ''3''),
         (BrandTask ''Poster'', image_reply ''4''),
         (LogoTask ''Abstract Icon'', empty_reply ''5''),
         (LogoTask ''App Icon'', image_reply ''6'')]\<rparr>"

definition logo_rejected_first :: gen_env where
  "logo_rejected_first =
     \<lparr>primary = Some (image_reply ''1''),
      completions =
        [(LogoTask ''Abstract Icon'', Rejected ''503 Service Unavailable''),
         (BrandTask ''Billboard'', image_reply ''2''),
         (BrandTask ''Merch'', image_reply ''3''),
         (BrandTask ''Poster'', image_reply ''4''),
         (LogoTask ''App Icon'', image_reply ''6'')]\<rparr>"

section \<open>Archive export (handleDownloadZip)\<close>

text \<open>
  The class \<open>\s\<close> of a JavaScript regular expression, on the code units below 256: tab, line
  feed, vertical tab, form feed, carriage return, space and no-break space.
\<close>

definition isSpace :: "char \<Rightarrow> bool" where
  "isSpace c \<longleftrightarrow> (of_char c :: nat) \<in> {9, 10, 11, 12, 13, 32, 160}"

text \<open>
  \<open>s.replace(/\s+/g, '_')\<close>: every maximal run of white space becomes one underscore. The
  flag says whether the previous character belonged to a run.
\<close>

fun replaceSpaces :: "bool \<Rightarrow> string \<Rightarrow> string" where
  "replaceSpaces inRun [] = []"
| "replaceSpaces inRun (c # cs) =
     (if isSpace c then (if inRun then replaceSpaces True cs else CHR ''_'' # replaceSpaces True cs)
      else c # replaceSpaces False cs)"

definition sanitize :: "string \<Rightarrow> string" where
  "sanitize s = replaceSpaces False s"

text \<open>
  The spec's wording of the sanitized subtype, white space replaced: the characters that are
  not white space stay, and each stretch of white space, up to the next character that is
  not, gives one underscore.
\<close>

function spec_sanitized :: "string \<Rightarrow> string" where
  "spec_sanitized [] = []"
| "spec_sanitized (c # cs) =
     (if isSpace c then CHR ''_'' # spec_sanitized (dropWhile isSpace cs)
      else c # spec_sanitized cs)"
  by pat_completeness auto
termination
  by (relation "measure length") (auto intro: le_imp_less_Suc length_dropWhile_le)

record StyleGuide =
  name :: string
  theme :: string
  colors :: "string list"
  fonts :: string
  layout :: string
  generatedAt :: string

text \<open>
  What a file of the archive holds: the style guide, serialised by \<open>JSON.stringify\<close>, or the
  bytes of an image.
\<close>

datatype zip_content = StyleGuideJson StyleGuide | ImageBlob string

text \<open>
  The environment of an export: whether \<open>zip.folder\<close> returns a folder, how
  \<open>fetch(asset.imageUrl)\<close> followed by \<open>response.blob()\<close> settles for the asset at each
  position, and the time \<open>new Date().toISOString()\<close> reads.
\<close>

record download_env =
  folderCreated :: bool
  fetchBlob :: "nat \<Rightarrow> string \<Rightarrow> string settled"
  isoNow :: string

text \<open>\<open>folder.file(path, data)\<close>: a file at an existing path is replaced.\<close>

definition folder_file ::
  "string \<Rightarrow> zip_content \<Rightarrow> (string \<times> zip_content) list \<Rightarrow> (string \<times> zip_content) list"
where
  "folder_file path data files =
     (if path \<in> fst ` set files
      then map (\<lambda>(p, d). if p = path then (p, data) else (p, d)) files
      else files @ [(path, data)])"

definition assetPath :: "GeneratedAsset \<Rightarrow> string" where
  "assetPath a = type a @ ''s/'' @ sanitize (subtype a) @ ''.png''"

text \<open>
  The spec's wording of an asset's place in the archive, \<open><kind>s/<sanitized subtype>\<close>, with
  the extension of the export's image files.
\<close>

definition spec_path :: "GeneratedAsset \<Rightarrow> string" where
  "spec_path a = type a @ ''s/'' @ spec_sanitized (subtype a) @ ''.png''"

text \<open>
  The progress of an export: whether a JSZip object was created, the folder's name, the
  files placed in the folder, the URLs fetched, the archive handed to \<open>saveAs\<close> with its file
  name, and the application state. \<open>zip.generateAsync\<close> and \<open>saveAs\<close> are library calls and
  are taken to succeed.
\<close>

record download =
  zipCreated :: bool
  folderName :: "string option"
  files :: "(string \<times> zip_content) list"
  fetched :: "string list"
  saved :: "(string \<times> (string \<times> zip_content) list) option"
  app :: app_state

text \<open>The loop over the assets, each iteration inside its own \<open>try\<close>.\<close>

fun addImages :: "download_env \<Rightarrow> nat \<Rightarrow> GeneratedAsset list \<Rightarrow> download \<Rightarrow> download" where
  "addImages env i [] d = d"
| "addImages env i (a # rest) d =
     addImages env (Suc i) rest
       (case fetchBlob env i (imageUrl a) of
          Fulfilled blob \<Rightarrow>
            d\<lparr>fetched := fetched d @ [imageUrl a],
               files := folder_file (assetPath a) (ImageBlob blob) (files d)\<rparr>
        | Rejected m \<Rightarrow>
            d\<lparr>fetched := fetched d @ [imageUrl a],
               app := consoleError ''Failed to add file to zip'' (app d)\<rparr>)"

definition handleDownloadZip :: "download_env \<Rightarrow> app_state \<Rightarrow> download" where
  "handleDownloadZip env w =
     (let d0 = \<lparr>zipCreated = False, folderName = None, files = [], fetched = [],
                 saved = None, app = w\<rparr>
      in case brandStyle w of
           None \<Rightarrow> d0
         | Some style \<Rightarrow>
             if length (assets w) = 0 then d0
             else
               let d1 = d0\<lparr>zipCreated := True\<rparr> in
               if \<not> folderCreated env then d1
               else
                 let d2 = d1\<lparr>folderName := Some (sanitize (brandName style) @ ''_BrandKit'')\<rparr>;
                     styleGuide = \<lparr>name = brandName style, theme = themeDescription style,
                                    colors = dominantColors style, fonts = fontStyle style,
                                    layout = layoutVibe style, generatedAt = isoNow env\<rparr>;
                     d3 = d2\<lparr>files := folder_file ''style-guide.json''
                                          (StyleGuideJson styleGuide) (files d2)\<rparr>;
                     d4 = addImages env 0 (assets w) d3
                 in d4\<lparr>saved := Some (brandName style @ ''_BrandKit.zip'', files d4)\<rparr>)"

text \<open>
  A concrete export: the demo style with a logo and two mockups, and an environment in which
  the fetch of the second asset fails. \<open>spaced_subtype\<close> is a label with a space, and with
  a tab followed by two spaces.
\<close>

definition spaced_subtype :: string where
  "spaced_subtype = ''Dark Mode'' @ [CHR 0x09] @ ''  App Icon''"

definition three_assets :: app_state where
  "three_assets =
     initial_app
       \<lparr>state := complete, brandStyle := Some getDemoBrandStyle,
        assets :=
          [\<lparr>assetId = ''logo-1'', type = ''logo'', subtype = ''Minimalist Wordmark'',
            imageUrl = ''data:image/png;base64,AAAA'',
            description = ''Minimalist Wordmark logo variant''\<rparr>,
           \<lparr>assetId = ''asset-Merch-2'', type = ''social'', subtype = ''Merch'',
            imageUrl = ''data:image/png;base64,BBBB'', description = ''Merch Mockup''\<rparr>,
           \<lparr>assetId = ''asset-Poster-3'', type = ''social'', subtype = ''Poster'',
            imageUrl = ''data:image/png;base64,CCCC'', description = ''Poster Mockup''\<rparr>]\<rparr>"

definition second_fetch_fails :: download_env where
  "second_fetch_fails =
     \<lparr>folderCreated = True,
      fetchBlob = (\<lambda>i url. if i = 1 then Rejected ''Failed to fetch'' else Fulfilled url),
      isoNow = ''2025-01-01T12:00:00.000Z''\<rparr>"

section \<open>JSON texts (the grammar JSON.parse accepts)\<close>

text \<open>
  The value of a JSON text as a syntax tree: a number keeps its numeral and a string keeps
  its characters as written between the quotes (escape sequences are checked, not decoded);
  an object keeps its members in the order of the text.
\<close>

datatype json =
    JNull
  | JBool bool
  | JNumber string
  | JString string
  | JArray "json list"
  | JObject "(string \<times> json) list"

datatype token =
    TLBrace | TRBrace | TLBracket | TRBracket | TColon | TComma
  | TString string | TNumber string | TTrue | TFalse | TNull

text \<open>The states of the number grammar \<open>-? (0 | [1-9][0-9]*) (. [0-9]+)? ([eE] [+-]? [0-9]+)?\<close>.\<close>

datatype num_state =
    NMinus | NZero | NInt | NDot | NFrac | NExp | NExpSign | NExpDigits

text \<open>
  The states of the scanner: between tokens, inside a string, after a backslash, inside the
  four hex digits of a \<open>\u\<close> escape, inside a number, inside one of the three literal names.
\<close>

datatype lex_state =
    LStart
  | LString string
  | LEscape string
  | LUnicode nat string
  | LNumber num_state string
  | LName string token

definition isDigit :: "char \<Rightarrow> bool" where
  "isDigit c \<longleftrightarrow> c \<in> set ''0123456789''"

definition isJsonSpace :: "char \<Rightarrow> bool" where
  "isJsonSpace c \<longleftrightarrow> (of_char c :: nat) \<in> {9, 10, 13, 32}"

definition isControl :: "char \<Rightarrow> bool" where
  "isControl c \<longleftrightarrow> (of_char c :: nat) < 32"

definition numberComplete :: "num_state \<Rightarrow> bool" where
  "numberComplete ns \<longleftrightarrow> ns \<in> {NZero, NInt, NFrac, NExpDigits}"

text \<open>The next state of the number grammar on a character that continues the number.\<close>

definition numberStep :: "num_state \<Rightarrow> char \<Rightarrow> num_state option" where
  "numberStep ns c =
     (case ns of
        NMinus \<Rightarrow> if c = CHR ''0'' then Some NZero else if isDigit c then Some NInt else None
      | NZero \<Rightarrow> if c = CHR ''.'' then Some NDot
                 else if c = CHR ''e'' \<or> c = CHR ''E'' then Some NExp else None
      | NInt \<Rightarrow> if isDigit c then Some NInt else if c = CHR ''.'' then Some NDot
                else if c = CHR ''e'' \<or> c = CHR ''E'' then Some NExp else None
      | NDot \<Rightarrow> if isDigit c then Some NFrac else None
      | NFrac \<Rightarrow> if isDigit c then Some NFrac
                 else if c = CHR ''e'' \<or> c = CHR ''E'' then Some NExp else None
      | NExp \<Rightarrow> if c = CHR ''+'' \<or> c = CHR ''-'' then Some NExpSign
                else if isDigit c then Some NExpDigits else None
      | NExpSign \<Rightarrow> if isDigit c then Some NExpDigits else None
      | NExpDigits \<Rightarrow> if isDigit c then Some NExpDigits else None)"

definition punctuation :: "char \<Rightarrow> token option" where
  "punctuation c =
     (if c = CHR ''{'' then Some TLBrace else if c = CHR ''}'' then Some TRBrace
      else if c = CHR ''['' then Some TLBracket else if c = CHR '']'' then Some TRBracket
      else if c = CHR '':'' then Some TColon else if c = CHR '','' then Some TComma
      else None)"

definition emit :: "token \<Rightarrow> token list option \<Rightarrow> token list option" where
  "emit t rest = map_option ((#) t) rest"

text \<open>
  The scanner reads one character at a time. A number ends at white space, at a comma or at
  a closing bracket or brace (no other character can follow a number in a JSON text).
\<close>

fun scan :: "lex_state \<Rightarrow> string \<Rightarrow> token list option" where
  "scan LStart [] = Some []"
| "scan (LNumber ns acc) [] = (if numberComplete ns then Some [TNumber acc] else None)"
| "scan st [] = None"
| "scan LStart (c # cs) =
     (if isJsonSpace c then scan LStart cs
      else case punctuation c of
        Some t \<Rightarrow> emit t (scan LStart cs)
      | None \<Rightarrow>
          if c = CHR 0x22 then scan (LString []) cs
          else if c = CHR ''-'' then scan (LNumber NMinus [c]) cs
          else if c = CHR ''0'' then scan (LNumber NZero [c]) cs
          else if isDigit c then scan (LNumber NInt [c]) cs
          else if c = CHR ''t'' then scan (LName ''rue'' TTrue) cs
          else if c = CHR ''f'' then scan (LName ''alse'' TFalse) cs
          else if c = CHR ''n'' then scan (LName ''ull'' TNull) cs
          else None)"
| "scan (LString acc) (c # cs) =
     (if c = CHR 0x22 then emit (TString acc) (scan LStart cs)
      else if c = CHR 0x5C then scan (LEscape (acc @ [c])) cs
      else if isControl c then None
      else scan (LString (acc @ [c])) cs)"
| "scan (LEscape acc) (c # cs) =
     (if c \<in> set [CHR 0x22, CHR 0x5C, CHR ''/'', CHR ''b'', CHR ''f'', CHR ''n'', CHR ''r'', CHR ''t'']
      then scan (LString (acc @ [c])) cs
      else if c = CHR ''u'' then scan (LUnicode 4 (acc @ [c])) cs
      else None)"
| "scan (LUnicode k acc) (c # cs) =
     (if \<not> isHexDigit c then None
      else if k \<le> 1 then scan (LString (acc @ [c])) cs
      else scan (LUnicode (k - 1) (acc @ [c])) cs)"
| "scan (LNumber ns acc) (c # cs) =
     (case numberStep ns c of
        Some ns' \<Rightarrow> scan (LNumber ns' (acc @ [c])) cs
      | None \<Rightarrow>
          if \<not> numberComplete ns then None
          else if isJsonSpace c then emit (TNumber acc) (scan LStart cs)
          else if c = CHR '','' \<or> c = CHR '']'' \<or> c = CHR ''}''
          then emit (TNumber acc) (case punctuation c of
                                     Some t \<Rightarrow> emit t (scan LStart cs) | None \<Rightarrow> None)
          else None)"
| "scan (LName todo t) (c # cs) =
     (case todo of
        [] \<Rightarrow> None
      | x # later \<Rightarrow>
          if c \<noteq> x then None
          else if later = [] then emit t (scan LStart cs)
          else scan (LName later t) cs)"

text \<open>
  The parser is a pushdown automaton over the tokens. A frame is an array or an object under
  construction, or the name of the member whose value is being read.
\<close>

datatype frame = ArrayF "json list" | ObjectF "(string \<times> json) list" | MemberF string

datatype mode =
    WantValue
  | WantValueOrClose
  | WantNameOrClose
  | WantName
  | WantColon
  | WantCommaOrClose
  | Finished json

text \<open>A completed value goes into the innermost open container, or is the result.\<close>

fun complete_value :: "json \<Rightarrow> frame list \<Rightarrow> (frame list \<times> mode) option" where
  "complete_value v [] = Some ([], Finished v)"
| "complete_value v (ArrayF xs # st) = Some (ArrayF (xs @ [v]) # st, WantCommaOrClose)"
| "complete_value v (MemberF k # ObjectF ms # st) =
     Some (ObjectF (ms @ [(k, v)]) # st, WantCommaOrClose)"
| "complete_value v st = None"

definition start_value :: "token \<Rightarrow> frame list \<Rightarrow> (frame list \<times> mode) option" where
  "start_value t st =
     (case t of
        TString s \<Rightarrow> complete_value (JString s) st
      | TNumber n \<Rightarrow> complete_value (JNumber n) st
      | TTrue \<Rightarrow> complete_value (JBool True) st
      | TFalse \<Rightarrow> complete_value (JBool False) st
      | TNull \<Rightarrow> complete_value JNull st
      | TLBracket \<Rightarrow> Some (ArrayF [] # st, WantValueOrClose)
      | TLBrace \<Rightarrow> Some (ObjectF [] # st, WantNameOrClose)
      | _ \<Rightarrow> None)"

definition close_container :: "token \<Rightarrow> frame list \<Rightarrow> (frame list \<times> mode) option" where
  "close_container t st =
     (case (t, st) of
        (TRBracket, ArrayF xs # st') \<Rightarrow> complete_value (JArray xs) st'
      | (TRBrace, ObjectF ms # st') \<Rightarrow> complete_value (JObject ms) st'
      | _ \<Rightarrow> None)"

definition member_name :: "token \<Rightarrow> frame list \<Rightarrow> (frame list \<times> mode) option" where
  "member_name t st = (case t of TString k \<Rightarrow> Some (MemberF k # st, WantColon) | _ \<Rightarrow> None)"

definition parse_step :: "frame list \<times> mode \<Rightarrow> token \<Rightarrow> (frame list \<times> mode) option" where
  "parse_step cfg t =
     (case cfg of (st, m) \<Rightarrow>
        (case m of
           WantValue \<Rightarrow> start_value t st
         | WantValueOrClose \<Rightarrow> if t = TRBracket then close_container t st else start_value t st
         | WantNameOrClose \<Rightarrow> if t = TRBrace then close_container t st else member_name t st
         | WantName \<Rightarrow> member_name t st
         | WantColon \<Rightarrow> if t = TColon then Some (st, WantValue) else None
         | WantCommaOrClose \<Rightarrow>
             if t = TComma
             then (case st of
                     ArrayF xs # st' \<Rightarrow> Some (st, WantValue)
                   | ObjectF ms # st' \<Rightarrow> Some (st, WantName)
                   | _ \<Rightarrow> None)
             else close_container t st
         | Finished v \<Rightarrow> None))"

fun parse_tokens :: "frame list \<times> mode \<Rightarrow> token list \<Rightarrow> json option" where
  "parse_tokens cfg [] = (case cfg of ([], Finished v) \<Rightarrow> Some v | _ \<Rightarrow> None)"
| "parse_tokens cfg (t # ts) =
     (case parse_step cfg t of None \<Rightarrow> None | Some cfg' \<Rightarrow> parse_tokens cfg' ts)"

text \<open>\<open>JSON.parse\<close>: the value of the text, or \<open>None\<close> where it throws a SyntaxError.\<close>

definition JSON_parse :: "string \<Rightarrow> json option" where
  "JSON_parse text = (case scan LStart text of None \<Rightarrow> None | Some ts \<Rightarrow> parse_tokens ([], WantValue) ts)"

section \<open>Style extraction (fetchScreenshotBase64, analyzeBrandFromUrl)\<close>

text \<open>
  The two collaborators are the environment. Times are milliseconds since the request
  was sent. A response of the screenshot service has a status and a body; reading the body
  (\<open>response.blob()\<close>) gives a blob with its content type and what the FileReader then
  delivers, or fails, or never finishes. A timer that fires at the very millisecond at which
  a request settles is taken to have fired first.
\<close>

datatype reader_result = Loaded "string option" | ReadFailed

datatype body = Body string reader_result | BodyFails string | BodyStalls

record response =
  status :: nat
  body :: body

datatype fetch_behaviour = Responds nat response | Fails nat string | Silent

text \<open>
  The analysis collaborator resolves with a response whose \<open>text\<close> is a string or undefined,
  or rejects, or never settles.
\<close>

datatype gemini_behaviour = Resolves nat "string option" | Rejects nat string | Unsettled

datatype part = InlineData string string | TextPart string

record extract_env =
  apiKey :: "string option"
  screenshotService :: "string \<Rightarrow> fetch_behaviour"
  abortMessage :: string
  generateContent :: "part list \<Rightarrow> gemini_behaviour"

text \<open>
  What a call does besides settling: the requests it sends, the requests it cancels while
  they are in flight, and the lines it writes to the console. The abort timer of the
  screenshot request is cleared only when the response arrives; when it fires after the
  request has failed it finds nothing in flight, and no cancellation is recorded.
\<close>

datatype call = ScreenshotFetch string | GenerateContent "part list"

datatype action = Request call | Cancel call | Console string

text \<open>
  An asynchronous call: the messages passed to \<open>onLog\<close>, the actions, and the settlement
  (\<open>None\<close> when the promise never settles).
\<close>

record 'a activity =
  logged :: "string list"
  actions :: "action list"
  outcome :: "'a option"

text \<open>The decimal numeral of a number, as a template literal prints it.\<close>

fun showNat :: "nat \<Rightarrow> string" where
  "showNat n =
     (if n < 10 then [char_of (48 + n)] else showNat (n div 10) @ [char_of (48 + n mod 10)])"

text \<open>\<open>s.split(',')[1]\<close>: the text between the first and the second comma, if there is a comma.\<close>

definition splitSecond :: "string \<Rightarrow> string option" where
  "splitSecond s =
     (case dropWhile (\<lambda>c. c \<noteq> CHR '','') s of
        [] \<Rightarrow> None
      | c # rest \<Rightarrow> Some (takeWhile (\<lambda>c. c \<noteq> CHR '','') rest))"

definition startsWith :: "string \<Rightarrow> string \<Rightarrow> bool" where
  "startsWith s p \<longleftrightarrow> take (length p) s = p"

definition screenshotUrl :: "string \<Rightarrow> string" where
  "screenshotUrl url =
     ''https://image.thum.io/get/width/1024/crop/800/noanimate/''
       @ (if startsWith url ''http'' then url else ''https://'' @ url)"

text \<open>The \<open>catch\<close> block of \<open>fetchScreenshotBase64\<close>.\<close>

definition screenshot_catch :: "string list \<Rightarrow> action list \<Rightarrow> string \<Rightarrow> string option activity" where
  "screenshot_catch ls acts m =
     \<lparr>logged = ls @ [''Screenshot failed (using text fallback): '' @ m],
      actions = acts @ [Console ''Screenshot fetch failed or timed out, falling back to text analysis:''],
      outcome = Some None\<rparr>"

definition fetchScreenshotBase64 :: "extract_env \<Rightarrow> string \<Rightarrow> string option activity" where
  "fetchScreenshotBase64 env url =
     (let target = screenshotUrl url;
          ls = [''Initiating screenshot capture for '' @ url @ ''...'',
                ''Sending request to screenshot service...''];
          acts = [Request (ScreenshotFetch target)];
          aborted = screenshot_catch ls (acts @ [Cancel (ScreenshotFetch target)]) (abortMessage env)
      in case screenshotService env target of
           Silent \<Rightarrow> aborted
         | Fails t m \<Rightarrow> if t < 8000 then screenshot_catch ls acts m else aborted
         | Responds t resp \<Rightarrow>
             if \<not> t < 8000 then aborted
             else if \<not> (200 \<le> status resp \<and> status resp \<le> 299)
             then \<lparr>logged = ls @ [''Screenshot service returned status: '' @ showNat (status resp)],
                   actions = acts, outcome = Some None\<rparr>
             else
               (case body resp of
                  BodyStalls \<Rightarrow> \<lparr>logged = ls, actions = acts, outcome = None\<rparr>
                | BodyFails m \<Rightarrow> screenshot_catch ls acts m
                | Body ty rd \<Rightarrow>
                    if \<not> startsWith ty ''image/''
                    then \<lparr>logged = ls @ [''Invalid content type received: '' @ ty],
                          actions = acts, outcome = Some None\<rparr>
                    else
                      let ls2 = ls @ [''Screenshot captured successfully. Converting to Base64...'']
                      in (case rd of
                            ReadFailed \<Rightarrow>
                              \<lparr>logged = ls2 @ [''Failed to read blob data.'',
                                               ''FileReader result is empty.''],
                               actions = acts, outcome = Some None\<rparr>
                          | Loaded res \<Rightarrow>
                              (case res of
                                 None \<Rightarrow>
                                   \<lparr>logged = ls2 @ [''FileReader result is empty.''],
                                    actions = acts, outcome = Some None\<rparr>
                               | Some s \<Rightarrow>
                                   if s = []
                                   then \<lparr>logged = ls2 @ [''FileReader result is empty.''],
                                         actions = acts, outcome = Some None\<rparr>
                                   else \<lparr>logged = ls2, actions = acts,
                                         outcome = Some (splitSecond s)\<rparr>))))"

definition promptIntro :: "string \<Rightarrow> string" where
  \<open>promptIntro url =
     ''\<newline>'' @
     ''    Analyze the brand and visual style of the website: '' @ url @
     ''.\<newline>'' @
     ''  ''\<close>

definition promptScreenshot :: string where
  \<open>promptScreenshot =
     ''\<newline>'' @
     ''    I have provided a screenshot of the website. \<newline>'' @
     ''    1. ANALYZE the image to determine the dominant color palette (extract hex codes from the image pixels).\<newline>'' @
     ''    2. OBSERVE the layout structure (hero section, navigation, density).\<newline>'' @
     ''    3. DETECT the typography style (serif vs sans-serif, weights, mood).\<newline>'' @
     ''    If the image appears to be a "loading" placeholder or "screenshot failed" image, IGNORE the image and use Google Search instead.\<newline>'' @
     ''    ''\<close>

definition promptSearch :: string where
  \<open>promptSearch =
     ''\<newline>'' @
     ''    Use Google Search to find information about the brand's logo, colors, and design language.\<newline>'' @
     ''    ''\<close>

definition promptFormat :: string where
  \<open>promptFormat =
     ''\<newline>'' @
     ''    If the website is not well-known, infer a suitable style based on the domain name and industry standards.\<newline>'' @
     ''    \<newline>'' @
     ''    Return a VALID JSON object (no markdown, just raw JSON) with the following specific structure:\<newline>'' @
     ''    {\<newline>'' @
     ''      "brandName": "Name of the brand",\<newline>'' @
     ''      "themeDescription": "A concise description of the visual theme",\<newline>'' @
     ''      "dominantColors": ["#hex1", "#hex2", "#hex3", "#hex4", "#hex5"],\<newline>'' @
     ''      "fontStyle": "Description of typography",\<newline>'' @
     ''      "layoutVibe": "Description of layout structure"\<newline>'' @
     ''    }\<newline>'' @
     ''  ''\<close>

text \<open>\<open>text.replace(/```json\n?/g, '')\<close> and \<open>text.replace(/```/g, '')\<close>, scanning from the left.\<close>

definition dropNewline :: "string \<Rightarrow> string" where
  "dropNewline s = (case s of [] \<Rightarrow> [] | c # cs \<Rightarrow> if c = CHR 0x0A then cs else s)"

function removeJsonFences :: "string \<Rightarrow> string" where
  "removeJsonFences [] = []"
| "removeJsonFences (c # cs) =
     (if take 7 (c # cs) = ''```json'' then removeJsonFences (dropNewline (drop 6 cs))
      else c # removeJsonFences cs)"
  by pat_completeness auto
termination
proof (relation "measure length")
  fix c :: char and cs :: string
  have "length (dropNewline (drop 6 cs)) \<le> length (drop 6 cs)"
    by (cases "drop 6 cs") (simp_all add: dropNewline_def)
  then show "(dropNewline (drop 6 cs), c # cs) \<in> measure length"
    by simp
qed auto

function removeFences :: "string \<Rightarrow> string" where
  "removeFences [] = []"
| "removeFences (c # cs) =
     (if take 3 (c # cs) = ''```'' then removeFences (drop 2 cs) else c # removeFences cs)"
  by pat_completeness auto
termination
  by (relation "measure length") auto

definition trim :: "string \<Rightarrow> string" where
  "trim s = rev (dropWhile isSpace (rev (dropWhile isSpace s)))"

definition cleanResponse :: "string \<Rightarrow> string" where
  "cleanResponse s = trim (removeFences (removeJsonFences s))"

text \<open>The outer \<open>catch\<close> block of \<open>analyzeBrandFromUrl\<close>: the error is logged and thrown again.\<close>

definition critical :: "string list \<Rightarrow> action list \<Rightarrow> string \<Rightarrow> (string + json) activity" where
  "critical ls acts m =
     \<lparr>logged = ls @ [''Critical Error: '' @ m], actions = acts, outcome = Some (Inl m)\<rparr>"

definition buildParts :: "string \<Rightarrow> string option \<Rightarrow> part list" where
  "buildParts url shot =
     (case shot of
        Some d \<Rightarrow>
          if d \<noteq> []
          then [InlineData ''image/png'' d,
                TextPart (promptIntro url @ promptScreenshot @ promptFormat)]
          else [TextPart (promptIntro url @ promptSearch @ promptFormat)]
      | None \<Rightarrow> [TextPart (promptIntro url @ promptSearch @ promptFormat)])"

text \<open>What follows a response that arrived before the timer.\<close>

definition handleResponse ::
  "string list \<Rightarrow> action list \<Rightarrow> string option \<Rightarrow> (string + json) activity"
where
  "handleResponse ls acts tx =
     (let ls1 = ls @ [''Gemini response received.''] in
      case tx of
        None \<Rightarrow> critical (ls1 @ [''Error: Empty text response from Gemini.'']) acts
                  ''Failed to analyze brand.''
      | Some t \<Rightarrow>
          if t = []
          then critical (ls1 @ [''Error: Empty text response from Gemini.'']) acts
                 ''Failed to analyze brand.''
          else
            let ls2 = ls1 @ [''Step 3: Parsing analysis results...''] in
            (case JSON_parse (cleanResponse t) of
               Some v \<Rightarrow>
                 \<lparr>logged = ls2 @ [''Analysis complete. Style definition ready.''],
                  actions = acts, outcome = Some (Inr v)\<rparr>
             | None \<Rightarrow>
                 critical (ls2 @ [''Error: Invalid JSON format received.''])
                   (acts @ [Console ''Failed to parse JSON response:''])
                   ''Failed to parse brand analysis results.''))"

text \<open>
  \<open>Promise.race\<close> of the collaborator's call and the 40 second timer. The timer only
  rejects the race: nothing cancels the call.
\<close>

definition awaitGemini ::
  "extract_env \<Rightarrow> part list \<Rightarrow> string list \<Rightarrow> action list \<Rightarrow> (string + json) activity"
where
  "awaitGemini env inputParts ls acts =
     (let timedOut = critical ls acts ''Gemini API timed out after 40s''
      in case generateContent env inputParts of
           Unsettled \<Rightarrow> timedOut
         | Rejects t m \<Rightarrow> if t < 40000 then critical ls acts m else timedOut
         | Resolves t tx \<Rightarrow> if t < 40000 then handleResponse ls acts tx else timedOut)"

definition analyzeBrandFromUrl :: "extract_env \<Rightarrow> string \<Rightarrow> (string + json) activity" where
  "analyzeBrandFromUrl env url =
     (case apiKey env of
        None \<Rightarrow> \<lparr>logged = [], actions = [], outcome = Some (Inl ''API Key not found'')\<rparr>
      | Some key \<Rightarrow>
          if key = []
          then \<lparr>logged = [], actions = [], outcome = Some (Inl ''API Key not found'')\<rparr>
          else
            let shot = fetchScreenshotBase64 env url;
                ls0 = [''Step 1: Fetching visual context...''] @ logged shot
            in (case outcome shot of
                  None \<Rightarrow> \<lparr>logged = ls0, actions = actions shot, outcome = None\<rparr>
                | Some screenshotBase64 \<Rightarrow>
                    let inputParts = buildParts url screenshotBase64;
                        attached = (case inputParts of InlineData mt d # ps \<Rightarrow> True | _ \<Rightarrow> False);
                        ls1 = ls0 @ [if attached
                                     then ''Visual context acquired. Attaching image to prompt.''
                                     else ''No visual context available. Proceeding with text/search analysis.'',
                                     ''Step 2: Sending request to Gemini 3 Pro...'']
                    in awaitGemini env inputParts ls1
                         (actions shot @ [Request (GenerateContent inputParts)])))"

text \<open>
  The spec's wording of the required output: one JSON object whose members \<open>brandName\<close>,
  \<open>themeDescription\<close>, \<open>fontStyle\<close> and \<open>layoutVibe\<close> are strings and whose member
  \<open>dominantColors\<close> is a list of five hex color strings. A repeated member counts as
  its last occurrence.
\<close>

definition member :: "(string \<times> json) list \<Rightarrow> string \<Rightarrow> json option" where
  "member ms k = map_of (rev ms) k"

definition isStringMember :: "(string \<times> json) list \<Rightarrow> string \<Rightarrow> bool" where
  "isStringMember ms k = (case member ms k of Some (JString s) \<Rightarrow> True | _ \<Rightarrow> False)"

definition isHexString :: "json \<Rightarrow> bool" where
  "isHexString j = (case j of JString s \<Rightarrow> spec_valid_hex s | _ \<Rightarrow> False)"

definition spec_schema :: "json \<Rightarrow> bool" where
  "spec_schema j =
     (case j of
        JObject ms \<Rightarrow>
          isStringMember ms ''brandName'' \<and> isStringMember ms ''themeDescription''
          \<and> isStringMember ms ''fontStyle'' \<and> isStringMember ms ''layoutVibe''
          \<and> (case member ms ''dominantColors'' of
                Some (JArray cs) \<Rightarrow> length cs = 5 \<and> list_all isHexString cs
              | _ \<Rightarrow> False)
      | _ \<Rightarrow> False)"

text \<open>
  The spec's wording of a failed capture: a timeout (no image within 8 seconds: no response,
  a response after 8 seconds, or a body that never finishes), a network error, a status
  outside 200..299, or a body that is not an image.
\<close>

definition capture_fails :: "fetch_behaviour \<Rightarrow> bool" where
  "capture_fails fb =
     (case fb of
        Silent \<Rightarrow> True
      | Fails t m \<Rightarrow> True
      | Responds t resp \<Rightarrow>
          8000 < t \<or> status resp < 200 \<or> 299 < status resp
          \<or> (case body resp of
                Body ty rd \<Rightarrow> \<not> startsWith ty ''image/''
              | BodyFails m \<Rightarrow> True
              | BodyStalls \<Rightarrow> True))"

text \<open>
  The one failed capture in which the request is answered in time with a success status and
  the body then never finishes.
\<close>

definition body_stalls :: "fetch_behaviour \<Rightarrow> bool" where
  "body_stalls fb =
     (case fb of
        Responds t resp \<Rightarrow>
          t \<le> 8000 \<and> 200 \<le> status resp \<and> status resp \<le> 299 \<and> body resp = BodyStalls
      | _ \<Rightarrow> False)"

text \<open>
  Concrete environments: a configured key, and a screenshot service and an analysis
  collaborator that behave as given whatever the request. \<open>not_found\<close> is a response of
  the screenshot service with status 404, \<open>stalled_image\<close> a response with status 200
  after 350 milliseconds whose body never finishes; \<open>fenced_descriptor\<close> is a descriptor
  in a code fence.
\<close>

definition env_with :: "fetch_behaviour \<Rightarrow> gemini_behaviour \<Rightarrow> extract_env" where
  "env_with fb gb =
     \<lparr>apiKey = Some ''test-key'', screenshotService = (\<lambda>target. fb),
      abortMessage = ''The user aborted a request.'', generateContent = (\<lambda>ps. gb)\<rparr>"

definition not_found :: fetch_behaviour where
  "not_found = Responds 350 \<lparr>status = 404, body = Body ''text/html'' (Loaded None)\<rparr>"

definition stalled_image :: fetch_behaviour where
  "stalled_image = Responds 350 \<lparr>status = 200, body = BodyStalls\<rparr>"

definition fenced_descriptor :: string where
  \<open>fenced_descriptor =
     ''```json\<newline>'' @
     ''{"brandName": "Acme", "themeDescription": "Plain",\<newline>'' @
     '' "dominantColors": ["#000000", "#FFFFFF", "#ff0000", "#00ff00", "#0000FF"],\<newline>'' @
     '' "fontStyle": "Sans", "layoutVibe": "Grid"}\<newline>'' @
     ''```''\<close>

definition acme_descriptor :: json where
  "acme_descriptor =
     JObject
       [(''brandName'', JString ''Acme''), (''themeDescription'', JString ''Plain''),
        (''dominantColors'',
           JArray [JString ''#000000'', JString ''#FFFFFF'', JString ''#ff0000'',
                   JString ''#00ff00'', JString ''#0000FF'']),
        (''fontStyle'', JString ''Sans''), (''layoutVibe'', JString ''Grid'')]"

section \<open>Properties of the color analysis\<close>

lemma hexDigitValue_lt: "isHexDigit c \<Longrightarrow> hexDigitValue c < 16"
  unfolding isHexDigit_def hexDigitValue_def by auto

lemma parseInt16_le: "isHexDigit hi \<Longrightarrow> isHexDigit lo \<Longrightarrow> parseInt16 hi lo \<le> 255"
  using hexDigitValue_lt [of hi] hexDigitValue_lt [of lo] by (simp add: parseInt16_def)

lemma matchGroups_Some:
  "matchGroups s = Some c \<Longrightarrow> length s = 6 \<and> list_all isHexDigit s \<and> r c \<le> 255 \<and> g c \<le> 255 \<and> b c \<le> 255"
  by (induction s rule: matchGroups.induct) (auto split: if_splits simp: parseInt16_le)

lemma matchGroups_None:
  "matchGroups s = None \<longleftrightarrow> \<not> (length s = 6 \<and> list_all isHexDigit s)"
  by (induction s rule: matchGroups.induct) auto

lemma not_hex_hash: "\<not> isHexDigit CHR ''#''"
  by (simp add: isHexDigit_def)

lemma hexToRgb_None_iff: "hexToRgb s = None \<longleftrightarrow> \<not> spec_valid_hex s"
proof (cases s)
  case Nil
  then show ?thesis by (simp add: hexToRgb_def spec_valid_hex_def)
next
  case (Cons c rest)
  show ?thesis
  proof (cases "c = CHR ''#''")
    case True
    have "matchGroups s = None"
      using Cons True not_hex_hash by (simp add: matchGroups_None)
    then show ?thesis
      using Cons True matchGroups_None [of rest]
      by (auto simp: hexToRgb_def spec_valid_hex_def split: option.splits)
  next
    case False
    then show ?thesis
      using Cons matchGroups_None [of s]
      by (auto simp: hexToRgb_def spec_valid_hex_def split: option.splits)
  qed
qed

lemma hexToRgb_range:
  "hexToRgb s = Some c \<Longrightarrow> r c \<le> 255 \<and> g c \<le> 255 \<and> b c \<le> 255"
  unfolding hexToRgb_def
  by (auto split: option.splits list.splits if_splits dest: matchGroups_Some)

lemma channel_bounds:
  assumes "v \<le> 255"
  shows "0 \<le> channel v \<and> channel v \<le> 1"
proof (cases "real v / 255 \<le> 0.03928")
  case True
  then show ?thesis by (simp add: channel_def)
next
  case False
  have "real v / 255 \<le> 1" using assms by simp
  then have "(real v / 255 + 0.055) / 1.055 \<le> 1" by simp
  moreover have "0 \<le> (real v / 255 + 0.055) / 1.055" by simp
  ultimately have "((real v / 255 + 0.055) / 1.055) powr 2.4 \<le> 1"
    by (intro powr_le1) simp_all
  then show ?thesis using False by (simp add: channel_def)
qed

lemma luminance_bounds:
  assumes "r0 \<le> 255" "g0 \<le> 255" "b0 \<le> 255"
  shows "0 \<le> luminance r0 g0 b0 \<and> luminance r0 g0 b0 \<le> 1"
  using channel_bounds [OF assms(1)] channel_bounds [OF assms(2)] channel_bounds [OF assms(3)]
  unfolding luminance_def by (simp; linarith)

lemma luminance_white: "luminance 255 255 255 = 1"
  by (simp add: luminance_def channel_def)

lemma luminance_black: "luminance 0 0 0 = 0"
  by (simp add: luminance_def channel_def)

lemma contrast_white:
  assumes "r c \<le> 255" "g c \<le> 255" "b c \<le> 255"
  shows "calculateContrast c white = 1.05 / (luminance (r c) (g c) (b c) + 0.05)"
proof -
  let ?L = "luminance (r c) (g c) (b c)"
  have "max ?L 1 = 1" "min ?L 1 = ?L"
    using luminance_bounds [OF assms] by simp_all
  then show ?thesis
    by (simp add: calculateContrast_def white_def luminance_white Let_def)
qed

lemma contrast_black:
  assumes "r c \<le> 255" "g c \<le> 255" "b c \<le> 255"
  shows "calculateContrast c black = (luminance (r c) (g c) (b c) + 0.05) / 0.05"
proof -
  let ?L = "luminance (r c) (g c) (b c)"
  have "max ?L 0 = ?L" "min ?L 0 = 0"
    using luminance_bounds [OF assms] by simp_all
  then show ?thesis
    by (simp add: calculateContrast_def black_def luminance_black Let_def)
qed

lemma toFixed2_mono: "x \<le> y \<Longrightarrow> toFixed2 x \<le> toFixed2 y"
  unfolding toFixed2_def by (simp add: divide_right_mono floor_mono)

lemma toFixed2_int: "toFixed2 (of_int n / 100) = of_int n / 100"
  unfolding toFixed2_def by simp

lemma toFixed2_near: "\<bar>toFixed2 x - x\<bar> \<le> 1 / 200"
proof -
  define n where "n = \<lfloor>x * 100 + 1 / 2\<rfloor>"
  have "of_int n \<le> x * 100 + 1 / 2" "x * 100 + 1 / 2 < of_int n + 1"
    unfolding n_def by linarith+
  then have "\<bar>of_int n / 100 - x\<bar> \<le> 1 / 200"
    by linarith
  then show ?thesis
    unfolding toFixed2_def n_def .
qed

lemma toFixed2_range:
  assumes "1 \<le> x" "x \<le> 21"
  shows "1 \<le> toFixed2 x \<and> toFixed2 x \<le> 21"
proof -
  have "toFixed2 (of_int 100 / 100) \<le> toFixed2 x"
    using assms by (intro toFixed2_mono) simp
  moreover have "toFixed2 x \<le> toFixed2 (of_int 2100 / 100)"
    using assms by (intro toFixed2_mono) simp
  ultimately show ?thesis
    unfolding toFixed2_int by simp
qed

lemma contrast_range:
  assumes "r c \<le> 255" "g c \<le> 255" "b c \<le> 255"
  shows "1 \<le> calculateContrast c white \<and> calculateContrast c white \<le> 21
       \<and> 1 \<le> calculateContrast c black \<and> calculateContrast c black \<le> 21"
proof -
  let ?L = "luminance (r c) (g c) (b c)"
  have L: "0 \<le> ?L" "?L \<le> 1" using luminance_bounds [OF assms] by simp_all
  have "1 \<le> 1.05 / (?L + 0.05)" using L by (simp add: field_simps)
  moreover have "1.05 / (?L + 0.05) \<le> 21" using L by (simp add: field_simps)
  moreover have "1 \<le> (?L + 0.05) / 0.05" using L by simp
  moreover have "(?L + 0.05) / 0.05 \<le> 21" using L by simp
  ultimately show ?thesis
    unfolding contrast_white [OF assms] contrast_black [OF assms] by blast
qed

lemma contrast_product:
  assumes "r c \<le> 255" "g c \<le> 255" "b c \<le> 255"
  shows "calculateContrast c white * calculateContrast c black = 21"
proof -
  let ?L = "luminance (r c) (g c) (b c)"
  have "0 \<le> ?L" using luminance_bounds [OF assms] by simp
  then have "?L + 0.05 \<noteq> 0" by simp
  then show ?thesis
    unfolding contrast_white [OF assms] contrast_black [OF assms] by (simp add: field_simps)
qed

lemma best_contrast:
  assumes "r c \<le> 255" "g c \<le> 255" "b c \<le> 255"
  shows "4.5 \<le> toFixed2 (calculateContrast c white) \<or> 4.5 \<le> toFixed2 (calculateContrast c black)"
proof (cases "0.2275 \<le> luminance (r c) (g c) (b c) + 0.05")
  case True
  then have "of_int 455 / 100 \<le> calculateContrast c black"
    unfolding contrast_black [OF assms] by simp
  then have "toFixed2 (of_int 455 / 100) \<le> toFixed2 (calculateContrast c black)"
    by (rule toFixed2_mono)
  then show ?thesis unfolding toFixed2_int by simp
next
  case False
  let ?L = "luminance (r c) (g c) (b c)"
  have "0 \<le> ?L" using luminance_bounds [OF assms] by simp
  with False have "of_int 455 / 100 \<le> 1.05 / (?L + 0.05)"
    by (simp add: field_simps)
  then have "toFixed2 (of_int 455 / 100) \<le> toFixed2 (calculateContrast c white)"
    unfolding contrast_white [OF assms] by (rule toFixed2_mono)
  then show ?thesis unfolding toFixed2_int by simp
qed

lemma analyzeColor_valid:
  assumes "hexToRgb s = Some c"
  shows "analyzeColor s =
           \<lparr>hex = s,
            contrastWhite = toFixed2 (calculateContrast c white),
            contrastBlack = toFixed2 (calculateContrast c black),
            accessibility = classify (toFixed2 (calculateContrast c white))
                                     (toFixed2 (calculateContrast c black))\<rparr>"
  using assms by (simp add: analyzeColor_def Let_def)

lemma analyzeColor_invalid:
  assumes "hexToRgb s = None"
  shows "analyzeColor s = \<lparr>hex = s, contrastWhite = 0, contrastBlack = 0, accessibility = Invalid\<rparr>"
  using assms by (simp add: analyzeColor_def)

lemma classify_chain:
  "classify cw cb =
     (if 7 \<le> cw \<or> 7 \<le> cb then AAA else if 4.5 \<le> cw \<or> 4.5 \<le> cb then AA else Fail)"
  by (simp add: classify_def Let_def)

text \<open>
  C6. \<open>analyzeColor\<close> has no failing branch: on every string it returns a ColorMetrics
  whose \<open>hex\<close> is the input and whose two contrast values lie between 0 and 21; and on
  every input that is not six hex digits (either case) after an optional leading \<open>#\<close>
  the result is exactly \<open>{hex, contrastWhite: 0, contrastBlack: 0, accessibility: Invalid}\<close>.
\<close>

theorem analyzeColor_total_in_range:
  "0 \<le> contrastWhite (analyzeColor s) \<and> contrastWhite (analyzeColor s) \<le> 21
   \<and> 0 \<le> contrastBlack (analyzeColor s) \<and> contrastBlack (analyzeColor s) \<le> 21
   \<and> hex (analyzeColor s) = s
   \<and> (\<not> spec_valid_hex s \<longrightarrow>
        analyzeColor s = \<lparr>hex = s, contrastWhite = 0, contrastBlack = 0, accessibility = Invalid\<rparr>)"
proof (cases "hexToRgb s")
  case None
  then show ?thesis
    by (simp add: analyzeColor_invalid)
next
  case (Some c)
  note rng = hexToRgb_range [OF Some]
  have c: "r c \<le> 255" "g c \<le> 255" "b c \<le> 255" using rng by simp_all
  have w: "1 \<le> toFixed2 (calculateContrast c white) \<and> toFixed2 (calculateContrast c white) \<le> 21"
    using contrast_range [OF c] by (intro toFixed2_range) simp_all
  have k: "1 \<le> toFixed2 (calculateContrast c black) \<and> toFixed2 (calculateContrast c black) \<le> 21"
    using contrast_range [OF c] by (intro toFixed2_range) simp_all
  have "spec_valid_hex s"
    using Some hexToRgb_None_iff [of s] by auto
  then show ?thesis
    using w k by (simp add: analyzeColor_valid [OF Some])
qed

theorem analyzeColor_total_in_range_witness:
  "\<not> spec_valid_hex ''not-a-color''
   \<and> analyzeColor ''not-a-color'' =
       \<lparr>hex = ''not-a-color'', contrastWhite = 0, contrastBlack = 0, accessibility = Invalid\<rparr>"
proof -
  have h: "\<not> spec_valid_hex ''not-a-color''"
    by (simp add: spec_valid_hex_def)
  show ?thesis
    using h analyzeColor_total_in_range [of "''not-a-color''"] by blast
qed

text \<open>
  C7. On an input that is six hex digits after an optional \<open>#\<close>, \<open>contrastWhite\<close> and
  \<open>contrastBlack\<close> are the contrast ratios against pure white and pure black, each rounded to
  two decimal places (a multiple of 1/100 within 1/200 of the ratio), and the class is
  computed from the rounded values: AAA when either is at least 7, otherwise AA when either
  is at least 4.5, otherwise Fail.
\<close>

theorem analyzeColor_rounds_then_classifies:
  assumes "spec_valid_hex s"
  shows "\<exists>c n m. hexToRgb s = Some c
           \<and> contrastWhite (analyzeColor s) = toFixed2 (calculateContrast c white)
           \<and> contrastBlack (analyzeColor s) = toFixed2 (calculateContrast c black)
           \<and> contrastWhite (analyzeColor s) = of_int n / 100
           \<and> contrastBlack (analyzeColor s) = of_int m / 100
           \<and> \<bar>contrastWhite (analyzeColor s) - calculateContrast c white\<bar> \<le> 1 / 200
           \<and> \<bar>contrastBlack (analyzeColor s) - calculateContrast c black\<bar> \<le> 1 / 200
           \<and> accessibility (analyzeColor s) =
               (if 7 \<le> contrastWhite (analyzeColor s) \<or> 7 \<le> contrastBlack (analyzeColor s)
                then AAA
                else if 4.5 \<le> contrastWhite (analyzeColor s) \<or> 4.5 \<le> contrastBlack (analyzeColor s)
                then AA else Fail)"
proof -
  obtain c where c: "hexToRgb s = Some c"
    using assms hexToRgb_None_iff [of s] by (cases "hexToRgb s") auto
  let ?w = "calculateContrast c white" and ?k = "calculateContrast c black"
  have "toFixed2 ?w = of_int \<lfloor>?w * 100 + 1 / 2\<rfloor> / 100"
       "toFixed2 ?k = of_int \<lfloor>?k * 100 + 1 / 2\<rfloor> / 100"
    by (simp_all add: toFixed2_def)
  moreover have "\<bar>toFixed2 ?w - ?w\<bar> \<le> 1 / 200" "\<bar>toFixed2 ?k - ?k\<bar> \<le> 1 / 200"
    by (rule toFixed2_near)+
  ultimately show ?thesis
    unfolding analyzeColor_valid [OF c] classify_chain using c by auto
qed

theorem analyzeColor_rounds_then_classifies_witness:
  "spec_valid_hex ''#000000''
   \<and> contrastWhite (analyzeColor ''#000000'') = 21
   \<and> contrastBlack (analyzeColor ''#000000'') = 1
   \<and> accessibility (analyzeColor ''#000000'') = AAA"
proof -
  have h: "spec_valid_hex ''#000000''"
    by (simp add: spec_valid_hex_def isHexDigit_def)
  have c: "hexToRgb ''#000000'' = Some black"
    by (simp add: hexToRgb_def isHexDigit_def parseInt16_def hexDigitValue_def black_def)
  have w: "calculateContrast black white = 21"
    by (simp add: calculateContrast_def black_def white_def luminance_white luminance_black)
  have k: "calculateContrast black black = 1"
    by (simp add: calculateContrast_def black_def luminance_black)
  have "toFixed2 21 = 21" "toFixed2 1 = 1"
    by (simp_all add: toFixed2_def)
  then show ?thesis
    using h analyzeColor_rounds_then_classifies [OF h] c w k by auto
qed

text \<open>
  C9. On an input that is six hex digits after an optional \<open>#\<close> the class is never Fail.
  The two exact contrast ratios multiply to 21, so one of them is at least the square root
  of 21, its rounding is at least 4.5, and the class is AA or AAA.
\<close>

theorem analyzeColor_never_Fail:
  assumes "spec_valid_hex s"
  shows "accessibility (analyzeColor s) \<noteq> Fail
         \<and> accessibility (analyzeColor s) \<in> {AA, AAA}
         \<and> (\<exists>c. hexToRgb s = Some c
               \<and> calculateContrast c white * calculateContrast c black = 21
               \<and> sqrt 21 \<le> max (calculateContrast c white) (calculateContrast c black))"
proof -
  obtain c where c: "hexToRgb s = Some c"
    using assms hexToRgb_None_iff [of s] by (cases "hexToRgb s") auto
  have rng: "r c \<le> 255" "g c \<le> 255" "b c \<le> 255"
    using hexToRgb_range [OF c] by simp_all
  let ?w = "calculateContrast c white" and ?k = "calculateContrast c black"
  have prod: "?w * ?k = 21" by (rule contrast_product [OF rng])
  have pos: "0 < ?w" "0 < ?k" using contrast_range [OF rng] by simp_all
  have root: "sqrt 21 \<le> max ?w ?k"
  proof (rule ccontr)
    assume "\<not> sqrt 21 \<le> max ?w ?k"
    then have "?w < sqrt 21" "?k < sqrt 21" by simp_all
    then have "?w * ?k < sqrt 21 * sqrt 21"
      using pos by (intro mult_strict_mono) simp_all
    then show False using prod by simp
  qed
  have "accessibility (analyzeColor s) \<in> {AA, AAA}"
    using best_contrast [OF rng]
    unfolding analyzeColor_valid [OF c] classify_chain by auto
  then show ?thesis
    using c prod root by auto
qed

theorem analyzeColor_never_Fail_witness:
  "spec_valid_hex ''#777777'' \<and> accessibility (analyzeColor ''#777777'') \<noteq> Fail"
proof -
  have h: "spec_valid_hex ''#777777''"
    by (simp add: spec_valid_hex_def isHexDigit_def)
  show ?thesis
    using h analyzeColor_never_Fail [OF h] by blast
qed

section \<open>Properties of the generation orchestration\<close>

lemmas run_defs =
  handleAnalyze_def startGeneration_def generateLogoVariant_def generateBrandAsset_def
  LOGO_VARIANTS_def BRAND_ASSETS_def second_wave_def addLog_def appendAsset_def
  consoleError_def analyze_cont_def analyze_catch_def after_join_def

lemmas demo_defs = demo_extraction_def image_reply_def initial_app_def noon_def

lemma settle_task_world:
  "state (fst (settle_task clock t out w)) = state w
   \<and> brandStyle (fst (settle_task clock t out w)) = brandStyle w
   \<and> assets (fst (settle_task clock t out w))
       = assets w @ (case out of Fulfilled a \<Rightarrow> [a] | Rejected m \<Rightarrow> [])"
  by (cases "(clock, t, out, w)" rule: settle_task.cases)
     (simp_all add: appendAsset_def addLog_def consoleError_def)

lemma settle_task_chained:
  "snd (settle_task clock t (task_outcome t rp) w)
     = (case first_rejection [(t, rp)] of Some m \<Rightarrow> Rejected m | None \<Rightarrow> Fulfilled ())"
  by (cases t; cases "task_outcome t rp") (auto split: settled.splits)

lemma analyze_cont_world:
  "assets (analyze_cont clock s w) = assets w"
  "state (analyze_cont clock (Fulfilled u) w) = state w"
  "state (analyze_cont clock (Rejected m) w) = error m"
  by (simp_all add: analyze_cont_def analyze_catch_def addLog_def consoleError_def
      split: settled.splits)

lemma after_join_world:
  "assets (after_join clock w) = assets w" "state (after_join clock w) = complete"
  by (simp_all add: after_join_def addLog_def)

text \<open>Every task that succeeds delivers its asset, whether or not the join has failed.\<close>

lemma wave_assets:
  assumes "distinct (map fst es)" "set (map fst es) \<subseteq> set (pending rn)"
  shows "assets (world (wave clock (analyze_cont clock) es rn)) = assets (world rn) @ delivered es"
  using assms
proof (induction es arbitrary: rn)
  case Nil
  then show ?case by simp
next
  case (Cons e es)
  obtain t rp where e: "e = (t, rp)" by (cases e)
  obtain w1 res where st: "settle_task clock t (task_outcome t rp) (world rn) = (w1, res)"
    by (cases "settle_task clock t (task_outcome t rp) (world rn)")
  have w1: "assets w1 = assets (world rn)
              @ (case task_outcome t rp of Fulfilled a \<Rightarrow> [a] | Rejected m \<Rightarrow> [])"
    using settle_task_world [of clock t "task_outcome t rp" "world rn"] st by simp
  have tin: "t \<in> set (pending rn)" using Cons.prems e by simp
  have rest: "distinct (map fst es)" "set (map fst es) \<subseteq> set (removeAll t (pending rn))"
    using Cons.prems e by auto
  let ?k = "analyze_cont clock"
  let ?next =
    "(case returned rn of
        Some s \<Rightarrow> rn\<lparr>world := w1, pending := removeAll t (pending rn)\<rparr>
      | None \<Rightarrow>
          (case res of
             Rejected m \<Rightarrow>
               \<lparr>world = ?k (Rejected m) w1, pending = removeAll t (pending rn),
                returned = Some (Rejected m), inflight_at_return = removeAll t (pending rn)\<rparr>
           | Fulfilled u \<Rightarrow>
               if removeAll t (pending rn) = []
               then \<lparr>world = ?k (Fulfilled ()) (after_join clock w1),
                     pending = removeAll t (pending rn),
                     returned = Some (Fulfilled ()), inflight_at_return = removeAll t (pending rn)\<rparr>
               else rn\<lparr>world := w1, pending := removeAll t (pending rn)\<rparr>))"
  have step: "wave clock ?k (e # es) rn = wave clock ?k es ?next"
    using tin st by (simp add: e Let_def)
  have p: "pending ?next = removeAll t (pending rn)"
    by (simp split: option.splits settled.splits)
  have a: "assets (world ?next) = assets w1"
    by (simp add: analyze_cont_world after_join_world split: option.splits settled.splits)
  have "assets (world (wave clock ?k es ?next)) = assets (world ?next) @ delivered es"
    using rest by (intro Cons.IH) (simp_all add: p)
  then show ?case
    unfolding step a w1 by (simp add: e split: settled.splits)
qed

text \<open>Once \<open>startGeneration\<close> has settled, later completions change neither that nor the state.\<close>

lemma wave_after_return:
  assumes "returned rn = Some s"
  shows "returned (wave clock k es rn) = Some s
         \<and> inflight_at_return (wave clock k es rn) = inflight_at_return rn
         \<and> state (world (wave clock k es rn)) = state (world rn)"
  using assms
proof (induction es arbitrary: rn)
  case Nil
  then show ?case by simp
next
  case (Cons e es)
  obtain t rp where e: "e = (t, rp)" by (cases e)
  show ?case
  proof (cases "t \<in> set (pending rn)")
    case False
    then show ?thesis using Cons e by simp
  next
    case True
    obtain w1 res where st: "settle_task clock t (task_outcome t rp) (world rn) = (w1, res)"
      by (cases "settle_task clock t (task_outcome t rp) (world rn)")
    have w1: "state w1 = state (world rn)"
      using settle_task_world [of clock t "task_outcome t rp" "world rn"] st by simp
    let ?next = "rn\<lparr>world := w1, pending := removeAll t (pending rn)\<rparr>"
    have step: "wave clock k (e # es) rn = wave clock k es ?next"
      using True st Cons.prems by (simp add: e Let_def)
    have "returned ?next = Some s" using Cons.prems by simp
    from Cons.IH [OF this] show ?thesis
      unfolding step using w1 by simp
  qed
qed

text \<open>
  While \<open>startGeneration\<close> has not settled: it is rejected by the first extra logo task that
  fails, and fulfilled after the last task when none does.
\<close>

lemma wave_join:
  assumes "returned rn = None" "distinct (map fst es)" "set (map fst es) = set (pending rn)"
    "pending rn \<noteq> []"
  shows "returned (wave clock (analyze_cont clock) es rn)
           = Some (case first_rejection es of Some m \<Rightarrow> Rejected m | None \<Rightarrow> Fulfilled ())
         \<and> state (world (wave clock (analyze_cont clock) es rn))
           = (case first_rejection es of Some m \<Rightarrow> error m | None \<Rightarrow> complete)
         \<and> (first_rejection es = None \<longrightarrow>
               inflight_at_return (wave clock (analyze_cont clock) es rn) = [])"
  using assms
proof (induction es arbitrary: rn)
  case Nil
  then show ?case by simp
next
  case (Cons e es)
  obtain t rp where e: "e = (t, rp)" by (cases e)
  let ?k = "analyze_cont clock"
  obtain w1 res where st: "settle_task clock t (task_outcome t rp) (world rn) = (w1, res)"
    by (cases "settle_task clock t (task_outcome t rp) (world rn)")
  have res: "res = (case first_rejection [(t, rp)] of Some m \<Rightarrow> Rejected m | None \<Rightarrow> Fulfilled ())"
    using settle_task_chained [of clock t rp "world rn"] st by simp
  have tin: "t \<in> set (pending rn)" using Cons.prems e by auto
  have tnot: "t \<notin> set (map fst es)" using Cons.prems e by simp
  have rest: "distinct (map fst es)" "set (map fst es) = set (removeAll t (pending rn))"
    using Cons.prems e tnot by auto
  have empty_iff: "removeAll t (pending rn) = [] \<longleftrightarrow> es = []"
    using rest(2) by (metis map_is_Nil_conv set_empty)
  show ?case
  proof (cases "first_rejection [(t, rp)]")
    case (Some m)
    then have fr: "first_rejection (e # es) = Some m"
      by (cases t) (auto simp: e split: settled.splits)
    let ?next = "\<lparr>world = ?k (Rejected m) w1, pending = removeAll t (pending rn),
                returned = Some (Rejected m), inflight_at_return = removeAll t (pending rn)\<rparr>"
    have step: "wave clock ?k (e # es) rn = wave clock ?k es ?next"
      using tin st res Some Cons.prems(1) by (simp add: e Let_def)
    have "returned ?next = Some (Rejected m)" by simp
    from wave_after_return [OF this, of clock ?k es] show ?thesis
      unfolding step fr by (simp add: analyze_cont_world)
  next
    case None
    then have fr: "first_rejection (e # es) = first_rejection es"
      by (cases t) (auto simp: e split: settled.splits)
    have resF: "res = Fulfilled ()" using res None by simp
    show ?thesis
    proof (cases "es = []")
      case True
      then have "removeAll t (pending rn) = []" using empty_iff by simp
      then have "wave clock ?k (e # es) rn
          = \<lparr>world = ?k (Fulfilled ()) (after_join clock w1), pending = [],
             returned = Some (Fulfilled ()), inflight_at_return = []\<rparr>"
        using tin st resF Cons.prems(1) True by (simp add: e Let_def)
      then show ?thesis
        unfolding fr using True by (simp add: analyze_cont_world after_join_world)
    next
      case False
      then have ne: "removeAll t (pending rn) \<noteq> []" using empty_iff by simp
      let ?next = "rn\<lparr>world := w1, pending := removeAll t (pending rn)\<rparr>"
      have step: "wave clock ?k (e # es) rn = wave clock ?k es ?next"
        using tin st resF Cons.prems(1) ne by (simp add: e Let_def)
      have "returned ?next = None" "set (map fst es) = set (pending ?next)" "pending ?next \<noteq> []"
        using Cons.prems(1) rest(2) ne by simp_all
      from Cons.IH [OF this(1) rest(1) this(2,3)] show ?thesis
        unfolding step fr .
    qed
  qed
qed

lemma delivered_length:
  "length (delivered es) + length (filter (\<lambda>e. is_rejected (task_outcome (fst e) (snd e))) es)
     = length es"
  by (induction es rule: delivered.induct) (auto simp: is_rejected_def split: settled.splits)

lemma second_wave_distinct: "distinct second_wave" "second_wave \<noteq> []" "length second_wave = 5"
  by (simp_all add: second_wave_def LOGO_VARIANTS_def BRAND_ASSETS_def)

text \<open>
  The outcome of a run in which the extraction succeeds and every task settles. Each task
  that succeeds delivers its asset, so the asset sequence has one entry per successful task.
  The run ends in \<open>complete\<close> when no extra logo task fails (failures of the primary logo
  and of the brand assets are absorbed), and in \<open>error\<close>, with the message of the first
  extra logo task that failed, otherwise.
\<close>

lemma handleAnalyze_run_summary:
  assumes "all_settle env" "ext_result ext = Some (Fulfilled style)"
  shows "state (world (handleAnalyze clock ext env url w))
           = (case first_rejection (completions env) of Some m \<Rightarrow> error m | None \<Rightarrow> complete)"
    and "returned (handleAnalyze clock ext env url w)
           = Some (case first_rejection (completions env) of
                     Some m \<Rightarrow> Rejected m | None \<Rightarrow> Fulfilled ())"
    and "first_rejection (completions env) = None
           \<Longrightarrow> inflight_at_return (handleAnalyze clock ext env url w) = []"
    and "length (assets (world (handleAnalyze clock ext env url w))) = task_count - failures env"
proof -
  obtain rp where rp: "primary env = Some rp"
    using assms(1) by (auto simp: all_settle_def)
  have es: "distinct (map fst (completions env))" "set (map fst (completions env)) = set second_wave"
    using assms(1) by (simp_all add: all_settle_def)
  obtain w0 where run: "handleAnalyze clock ext env url w
      = wave clock (analyze_cont clock) (completions env)
          \<lparr>world = w0, pending = second_wave, returned = None, inflight_at_return = []\<rparr>"
    and a0: "assets w0 = (case generateLogoVariant (LOGO_VARIANTS ! 0) rp of
                            Fulfilled a \<Rightarrow> [a] | Rejected m \<Rightarrow> [])"
    using assms(2) rp
    by (auto simp: handleAnalyze_def startGeneration_def Let_def appendAsset_def addLog_def
        consoleError_def split: settled.splits)
  let ?rn = "\<lparr>world = w0, pending = second_wave, returned = None, inflight_at_return = []\<rparr>"
  have J: "returned (wave clock (analyze_cont clock) (completions env) ?rn)
           = Some (case first_rejection (completions env) of
                     Some m \<Rightarrow> Rejected m | None \<Rightarrow> Fulfilled ())
         \<and> state (world (wave clock (analyze_cont clock) (completions env) ?rn))
           = (case first_rejection (completions env) of Some m \<Rightarrow> error m | None \<Rightarrow> complete)
         \<and> (first_rejection (completions env) = None \<longrightarrow>
               inflight_at_return (wave clock (analyze_cont clock) (completions env) ?rn) = [])"
    using es second_wave_distinct by (intro wave_join) simp_all
  show "state (world (handleAnalyze clock ext env url w))
           = (case first_rejection (completions env) of Some m \<Rightarrow> error m | None \<Rightarrow> complete)"
    unfolding run using J by blast
  show "returned (handleAnalyze clock ext env url w)
           = Some (case first_rejection (completions env) of
                     Some m \<Rightarrow> Rejected m | None \<Rightarrow> Fulfilled ())"
    unfolding run using J by blast
  show "inflight_at_return (handleAnalyze clock ext env url w) = []"
    if "first_rejection (completions env) = None"
    unfolding run using J that by blast
  have A: "assets (world (handleAnalyze clock ext env url w)) = assets w0 @ delivered (completions env)"
    unfolding run using es by (subst wave_assets) simp_all
  have "length (map fst (completions env)) = length second_wave"
    using es second_wave_distinct(1) by (metis distinct_card)
  then have n: "length (completions env) = 5"
    using second_wave_distinct(3) by simp
  have tc: "task_count = 6"
    by (simp add: task_count_def second_wave_distinct)
  define k where
    "k = length (filter (\<lambda>e. is_rejected (task_outcome (fst e) (snd e))) (completions env))"
  have d: "length (delivered (completions env)) + k = 5"
    unfolding k_def using delivered_length [of "completions env"] n by simp
  show "length (assets (world (handleAnalyze clock ext env url w))) = task_count - failures env"
    unfolding A a0 tc failures_def rp k_def [symmetric]
    using d by (cases "generateLogoVariant (LOGO_VARIANTS ! 0) rp") (simp_all add: is_rejected_def)
qed

text \<open>
  C1. A run in which all six tasks settle and exactly one of them fails, the extra logo
  Abstract Icon, whose reply has no image payload. The five other assets are delivered,
  but the failure is not caught at the task: it rejects \<open>startGeneration\<close>, and the run ends
  in state \<open>error\<close>, not \<open>complete\<close>. (When the one failing task is the primary logo or a
  brand asset, the run does end in \<open>complete\<close> with five assets: \<open>handleAnalyze_run_summary\<close>.)
\<close>

theorem handleAnalyze_one_logo_fails:
  "all_settle one_logo_fails
   \<and> failures one_logo_fails = 1
   \<and> length (assets (world (handleAnalyze noon demo_extraction one_logo_fails ''neonflux.io'' initial_app)))
       = task_count - 1
   \<and> state (world (handleAnalyze noon demo_extraction one_logo_fails ''neonflux.io'' initial_app))
       = error ''Failed to generate logo image''"
proof -
  have "all_settle one_logo_fails"
    by (simp add: all_settle_def one_logo_fails_def second_wave_def LOGO_VARIANTS_def
        BRAND_ASSETS_def)
  moreover have "failures one_logo_fails = 1"
    by (simp add: failures_def one_logo_fails_def is_rejected_def empty_reply_def run_defs demo_defs)
  moreover have "task_count = 6"
    by (simp add: task_count_def second_wave_def LOGO_VARIANTS_def BRAND_ASSETS_def)
  moreover have
    "length (assets (world (handleAnalyze noon demo_extraction one_logo_fails ''neonflux.io'' initial_app))) = 5"
    by (simp add: one_logo_fails_def empty_reply_def run_defs demo_defs)
  moreover have
    "state (world (handleAnalyze noon demo_extraction one_logo_fails ''neonflux.io'' initial_app))
       = error ''Failed to generate logo image''"
    by (simp add: one_logo_fails_def empty_reply_def run_defs demo_defs)
  ultimately show ?thesis by simp
qed

text \<open>
  C2. A run in which the Abstract Icon request is rejected while the four other second-wave
  tasks are still in flight: \<open>startGeneration\<close> settles (rejected) at that moment, before the
  other tasks have settled, and the run state becomes \<open>error\<close>; it is not \<open>complete\<close> after
  the remaining tasks have all succeeded.
\<close>

theorem startGeneration_settles_before_join:
  "returned (handleAnalyze noon demo_extraction logo_rejected_first ''neonflux.io'' initial_app)
     = Some (Rejected ''503 Service Unavailable'')
   \<and> inflight_at_return (handleAnalyze noon demo_extraction logo_rejected_first ''neonflux.io'' initial_app)
     = [BrandTask ''Billboard'', BrandTask ''Merch'', BrandTask ''Poster'', LogoTask ''App Icon'']
   \<and> pending (handleAnalyze noon demo_extraction logo_rejected_first ''neonflux.io'' initial_app) = []
   \<and> state (world (handleAnalyze noon demo_extraction logo_rejected_first ''neonflux.io'' initial_app))
     = error ''503 Service Unavailable''"
  by (simp add: logo_rejected_first_def run_defs demo_defs)

section \<open>Properties of the archive export\<close>

lemma replaceSpaces_no_space: "c \<in> set (replaceSpaces f s) \<Longrightarrow> \<not> isSpace c"
  by (induction f s rule: replaceSpaces.induct) (auto simp: isSpace_def split: if_splits)

lemma sanitize_no_space: "c \<in> set (sanitize s) \<Longrightarrow> \<not> isSpace c"
  unfolding sanitize_def by (rule replaceSpaces_no_space)

lemma sanitize_unchanged: "\<forall>c \<in> set s. \<not> isSpace c \<Longrightarrow> sanitize s = s"
  unfolding sanitize_def by (induction s) simp_all

lemma folder_file_keys: "fst ` set (folder_file p x fs) = insert p (fst ` set fs)"
  by (auto simp: folder_file_def image_iff split: if_splits prod.splits) force+

lemma folder_file_lookup: "map_of (folder_file p x fs) q = (if q = p then Some x else map_of fs q)"
proof (cases "p \<in> fst ` set fs")
  case False
  then have "map_of fs p = None"
    by (simp add: map_of_eq_None_iff)
  then show ?thesis
    using False by (auto simp: folder_file_def map_add_def split: option.splits)
next
  case True
  then obtain y where y: "map_of fs p = Some y"
    using map_of_eq_None_iff [of fs p] by (cases "map_of fs p") auto
  have "map_of (map (\<lambda>(k, d). if k = p then (k, x) else (k, d)) fs) q
          = (if q = p then map_option (\<lambda>d. x) (map_of fs p) else map_of fs q)"
    by (induction fs) auto
  then show ?thesis
    using True y by (simp add: folder_file_def)
qed

lemma addImages_frame:
  "zipCreated (addImages env i xs d) = zipCreated d
   \<and> folderName (addImages env i xs d) = folderName d
   \<and> saved (addImages env i xs d) = saved d"
  by (induction xs arbitrary: i d) (auto split: settled.splits)

lemma addImages_fetched:
  "fetched (addImages env i xs d) = fetched d @ map imageUrl xs"
  by (induction xs arbitrary: i d) (auto split: settled.splits)

lemma addImages_other_path:
  "q \<notin> assetPath ` set xs \<Longrightarrow> map_of (files (addImages env i xs d)) q = map_of (files d) q"
  by (induction xs arbitrary: i d) (auto simp: folder_file_lookup split: settled.splits)

lemma addImages_keys:
  "fst ` set (files (addImages env i xs d))
     = fst ` set (files d)
       \<union> {assetPath (xs ! j) | j. j < length xs
             \<and> \<not> is_rejected (fetchBlob env (i + j) (imageUrl (xs ! j)))}"
proof (induction xs arbitrary: i d)
  case Nil
  then show ?case by simp
next
  case (Cons a rest)
  let ?P = "\<lambda>k (ys :: GeneratedAsset list). {assetPath (ys ! j) | j. j < length ys
              \<and> \<not> is_rejected (fetchBlob env (k + j) (imageUrl (ys ! j)))}"
  have split: "?P i (a # rest)
      = (if is_rejected (fetchBlob env i (imageUrl a)) then {} else {assetPath a}) \<union> ?P (Suc i) rest"
  proof (intro set_eqI iffI)
    fix p assume "p \<in> ?P i (a # rest)"
    then obtain j where j: "j < length (a # rest)" "p = assetPath ((a # rest) ! j)"
      "\<not> is_rejected (fetchBlob env (i + j) (imageUrl ((a # rest) ! j)))" by blast
    show "p \<in> (if is_rejected (fetchBlob env i (imageUrl a)) then {} else {assetPath a}) \<union> ?P (Suc i) rest"
    proof (cases j)
      case 0
      then show ?thesis using j by auto
    next
      case (Suc j')
      then have "j' < length rest" "p = assetPath (rest ! j')"
        "\<not> is_rejected (fetchBlob env (Suc i + j') (imageUrl (rest ! j')))"
        using j by simp_all
      then show ?thesis by blast
    qed
  next
    fix p assume "p \<in> (if is_rejected (fetchBlob env i (imageUrl a)) then {} else {assetPath a}) \<union> ?P (Suc i) rest"
    then consider "\<not> is_rejected (fetchBlob env i (imageUrl a))" "p = assetPath a"
      | "p \<in> ?P (Suc i) rest" by (auto split: if_splits)
    then show "p \<in> ?P i (a # rest)"
    proof cases
      case 1
      then have "0 < length (a # rest) \<and> p = assetPath ((a # rest) ! 0)
          \<and> \<not> is_rejected (fetchBlob env (i + 0) (imageUrl ((a # rest) ! 0)))" by simp
      then show ?thesis by blast
    next
      case 2
      then obtain j where "j < length rest" "p = assetPath (rest ! j)"
        "\<not> is_rejected (fetchBlob env (Suc i + j) (imageUrl (rest ! j)))" by blast
      then have "Suc j < length (a # rest) \<and> p = assetPath ((a # rest) ! Suc j)
          \<and> \<not> is_rejected (fetchBlob env (i + Suc j) (imageUrl ((a # rest) ! Suc j)))" by simp
      then show ?thesis by blast
    qed
  qed
  show ?case
    unfolding split
    by (cases "fetchBlob env i (imageUrl a)")
       (auto simp: Cons.IH folder_file_keys is_rejected_def)
qed

lemma addImages_distinct_lookup:
  assumes "distinct (map assetPath xs)" "assetPath ` set xs \<inter> fst ` set (files d) = {}"
    "j < length xs"
  shows "map_of (files (addImages env i xs d)) (assetPath (xs ! j))
           = (case fetchBlob env (i + j) (imageUrl (xs ! j)) of
                Fulfilled blob \<Rightarrow> Some (ImageBlob blob)
              | Rejected m \<Rightarrow> None)"
  using assms
proof (induction xs arbitrary: i d j)
  case Nil
  then show ?case by simp
next
  case (Cons a rest)
  let ?d' = "case fetchBlob env i (imageUrl a) of
          Fulfilled blob \<Rightarrow>
            d\<lparr>fetched := fetched d @ [imageUrl a],
               files := folder_file (assetPath a) (ImageBlob blob) (files d)\<rparr>
        | Rejected m \<Rightarrow>
            d\<lparr>fetched := fetched d @ [imageUrl a],
               app := consoleError ''Failed to add file to zip'' (app d)\<rparr>"
  have step: "addImages env i (a # rest) d = addImages env (Suc i) rest ?d'" by simp
  have fresh: "assetPath a \<notin> assetPath ` set rest" using Cons.prems(1) by auto
  have nokey: "assetPath a \<notin> fst ` set (files d)" using Cons.prems(2) by auto
  show ?case
  proof (cases j)
    case 0
    have "map_of (files (addImages env i (a # rest) d)) (assetPath a) = map_of (files ?d') (assetPath a)"
      unfolding step by (rule addImages_other_path [OF fresh])
    also have "\<dots> = (case fetchBlob env i (imageUrl a) of
                Fulfilled blob \<Rightarrow> Some (ImageBlob blob) | Rejected m \<Rightarrow> None)"
      using nokey by (cases "fetchBlob env i (imageUrl a)")
        (simp_all add: folder_file_lookup map_of_eq_None_iff)
    finally show ?thesis using 0 by simp
  next
    case (Suc j')
    have keys: "fst ` set (files ?d') \<subseteq> insert (assetPath a) (fst ` set (files d))"
      by (cases "fetchBlob env i (imageUrl a)") (auto simp: folder_file_keys)
    have "assetPath ` set rest \<inter> insert (assetPath a) (fst ` set (files d)) = {}"
      using fresh Cons.prems(2) by auto
    then have disj: "assetPath ` set rest \<inter> fst ` set (files ?d') = {}"
      using keys by blast
    have "map_of (files (addImages env (Suc i) rest ?d')) (assetPath (rest ! j'))
           = (case fetchBlob env (Suc i + j') (imageUrl (rest ! j')) of
                Fulfilled blob \<Rightarrow> Some (ImageBlob blob) | Rejected m \<Rightarrow> None)"
      using Cons.prems Suc by (intro Cons.IH [OF _ disj]) simp_all
    then show ?thesis unfolding step using Suc by simp
  qed
qed

lemma assetPath_not_manifest: "assetPath a \<noteq> ''style-guide.json''"
proof
  assume "assetPath a = ''style-guide.json''"
  then have "last (assetPath a) = last ''style-guide.json''" by simp
  then show False by (simp add: assetPath_def)
qed

lemma handleDownloadZip_unfold:
  assumes "brandStyle w = Some style" "assets w \<noteq> []" "folderCreated env"
  shows "handleDownloadZip env w =
     (addImages env 0 (assets w)
        \<lparr>zipCreated = True, folderName = Some (sanitize (brandName style) @ ''_BrandKit''),
         files = [(''style-guide.json'',
                   StyleGuideJson \<lparr>name = brandName style, theme = themeDescription style,
                      colors = dominantColors style, fonts = fontStyle style,
                      layout = layoutVibe style, generatedAt = isoNow env\<rparr>)],
         fetched = [], saved = None, app = w\<rparr>)
       \<lparr>saved := Some (brandName style @ ''_BrandKit.zip'',
          files (addImages env 0 (assets w)
        \<lparr>zipCreated = True, folderName = Some (sanitize (brandName style) @ ''_BrandKit''),
         files = [(''style-guide.json'',
                   StyleGuideJson \<lparr>name = brandName style, theme = themeDescription style,
                      colors = dominantColors style, fonts = fontStyle style,
                      layout = layoutVibe style, generatedAt = isoNow env\<rparr>)],
         fetched = [], saved = None, app = w\<rparr>))\<rparr>"
  using assms by (simp add: handleDownloadZip_def folder_file_def Let_def)

text \<open>The export, past its guards, in terms of the paths the code builds.\<close>

lemma handleDownloadZip_archive:
  assumes "brandStyle w = Some style" "assets w \<noteq> []" "folderCreated env"
  shows "saved (handleDownloadZip env w)
             = Some (brandName style @ ''_BrandKit.zip'', files (handleDownloadZip env w))
           \<and> fetched (handleDownloadZip env w) = map imageUrl (assets w)
           \<and> map_of (files (handleDownloadZip env w)) ''style-guide.json''
               = Some (StyleGuideJson
                   \<lparr>name = brandName style, theme = themeDescription style,
                    colors = dominantColors style, fonts = fontStyle style,
                    layout = layoutVibe style, generatedAt = isoNow env\<rparr>)
           \<and> fst ` set (files (handleDownloadZip env w))
               = insert ''style-guide.json''
                   {assetPath (assets w ! j) | j. j < length (assets w)
                      \<and> \<not> is_rejected (fetchBlob env j (imageUrl (assets w ! j)))}
           \<and> (distinct (map assetPath (assets w)) \<longrightarrow>
                (\<forall>j < length (assets w).
                   map_of (files (handleDownloadZip env w)) (assetPath (assets w ! j))
                     = (case fetchBlob env j (imageUrl (assets w ! j)) of
                          Fulfilled blob \<Rightarrow> Some (ImageBlob blob)
                        | Rejected m \<Rightarrow> None)))"
proof -
  let ?guide = "StyleGuideJson \<lparr>name = brandName style, theme = themeDescription style,
                      colors = dominantColors style, fonts = fontStyle style,
                      layout = layoutVibe style, generatedAt = isoNow env\<rparr>"
  let ?d = "\<lparr>zipCreated = True, folderName = Some (sanitize (brandName style) @ ''_BrandKit''),
         files = [(''style-guide.json'', ?guide)], fetched = [], saved = None, app = w\<rparr>"
  let ?r = "addImages env 0 (assets w) ?d"
  have eq: "handleDownloadZip env w = ?r\<lparr>saved := Some (brandName style @ ''_BrandKit.zip'', files ?r)\<rparr>"
    by (rule handleDownloadZip_unfold [OF assms])
  have notin: "''style-guide.json'' \<notin> assetPath ` set (assets w)"
  proof
    assume "''style-guide.json'' \<in> assetPath ` set (assets w)"
    then obtain a where "assetPath a = ''style-guide.json''" by auto
    then show False using assetPath_not_manifest by blast
  qed
  have guide: "map_of (files ?r) ''style-guide.json'' = Some ?guide"
    using addImages_other_path [OF notin, of env 0 ?d] by simp
  have keys: "fst ` set (files ?r) = insert ''style-guide.json''
                   {assetPath (assets w ! j) | j. j < length (assets w)
                      \<and> \<not> is_rejected (fetchBlob env j (imageUrl (assets w ! j)))}"
    using addImages_keys [of env 0 "assets w" ?d] by simp
  have disj: "assetPath ` set (assets w) \<inter> fst ` set (files ?d) = {}"
    using notin by simp
  have look: "distinct (map assetPath (assets w)) \<longrightarrow>
                (\<forall>j < length (assets w).
                   map_of (files ?r) (assetPath (assets w ! j))
                     = (case fetchBlob env j (imageUrl (assets w ! j)) of
                          Fulfilled blob \<Rightarrow> Some (ImageBlob blob)
                        | Rejected m \<Rightarrow> None))"
    using addImages_distinct_lookup [OF _ disj, of _ env 0] by simp
  have fet: "fetched ?r = map imageUrl (assets w)"
    by (simp add: addImages_fetched)
  show ?thesis
    unfolding eq using guide keys look fet by simp
qed

text \<open>The code's replacement of white space is the spec's.\<close>

lemma replaceSpaces_spec:
  "replaceSpaces False s = spec_sanitized s
   \<and> replaceSpaces True s = spec_sanitized (dropWhile isSpace s)"
  by (induction s) auto

lemma sanitize_spec: "sanitize s = spec_sanitized s"
  by (simp add: sanitize_def replaceSpaces_spec)

lemma assetPath_spec: "assetPath = spec_path"
  by (rule ext) (simp add: assetPath_def spec_path_def sanitize_spec)

text \<open>
  C8. When a style is present, there is at least one asset and the folder exists, the export
  always reaches \<open>saveAs\<close>. Every asset's image is requested once, in order. The archive
  holds the style guide, and a file is in the archive exactly when it is the style guide or
  is at the path \<open><type>s/<subtype>.png\<close> of an asset whose fetch succeeded, where in the
  subtype every stretch of white space is replaced by one underscore. When the assets' paths
  are distinct, each fetched asset's blob is at its path and the path of an asset whose fetch
  failed is absent: only that asset is skipped.
\<close>

theorem handleDownloadZip_isolates_failed_fetch:
  assumes "brandStyle w = Some style" "assets w \<noteq> []" "folderCreated env"
  shows "saved (handleDownloadZip env w)
             = Some (brandName style @ ''_BrandKit.zip'', files (handleDownloadZip env w))
           \<and> fetched (handleDownloadZip env w) = map imageUrl (assets w)
           \<and> map_of (files (handleDownloadZip env w)) ''style-guide.json''
               = Some (StyleGuideJson
                   \<lparr>name = brandName style, theme = themeDescription style,
                    colors = dominantColors style, fonts = fontStyle style,
                    layout = layoutVibe style, generatedAt = isoNow env\<rparr>)
           \<and> fst ` set (files (handleDownloadZip env w))
               = insert ''style-guide.json''
                   {spec_path (assets w ! j) | j. j < length (assets w)
                      \<and> \<not> is_rejected (fetchBlob env j (imageUrl (assets w ! j)))}
           \<and> (distinct (map spec_path (assets w)) \<longrightarrow>
                (\<forall>j < length (assets w).
                   map_of (files (handleDownloadZip env w)) (spec_path (assets w ! j))
                     = (case fetchBlob env j (imageUrl (assets w ! j)) of
                          Fulfilled blob \<Rightarrow> Some (ImageBlob blob)
                        | Rejected m \<Rightarrow> None)))"
  unfolding assetPath_spec [symmetric] by (rule handleDownloadZip_archive [OF assms])

lemmas export_defs =
  three_assets_def second_fetch_fails_def initial_app_def getDemoBrandStyle_def

theorem handleDownloadZip_isolates_failed_fetch_witness:
  "brandStyle three_assets = Some getDemoBrandStyle
   \<and> assets three_assets \<noteq> []
   \<and> folderCreated second_fetch_fails
   \<and> distinct (map spec_path (assets three_assets))
   \<and> fetched (handleDownloadZip second_fetch_fails three_assets)
       = [''data:image/png;base64,AAAA'', ''data:image/png;base64,BBBB'',
          ''data:image/png;base64,CCCC'']
   \<and> map_of (files (handleDownloadZip second_fetch_fails three_assets))
         ''logos/Minimalist_Wordmark.png''
       = Some (ImageBlob ''data:image/png;base64,AAAA'')
   \<and> map_of (files (handleDownloadZip second_fetch_fails three_assets))
         ''logos/Minimalist Wordmark.png'' = None
   \<and> map_of (files (handleDownloadZip second_fetch_fails three_assets)) ''socials/Merch.png'' = None
   \<and> map_of (files (handleDownloadZip second_fetch_fails three_assets)) ''socials/Poster.png''
       = Some (ImageBlob ''data:image/png;base64,CCCC'')
   \<and> fst ` set (files (handleDownloadZip second_fetch_fails three_assets))
       = {''style-guide.json'', ''logos/Minimalist_Wordmark.png'', ''socials/Poster.png''}
   \<and> assetPath \<lparr>assetId = ''logo-9'', type = ''logo'', subtype = spaced_subtype,
                    imageUrl = ''data:image/png;base64,DDDD'', description = []\<rparr>
       = ''logos/Dark_Mode_App_Icon.png''"
proof -
  have h: "brandStyle three_assets = Some getDemoBrandStyle" "assets three_assets \<noteq> []"
    "folderCreated second_fetch_fails"
    by (simp_all add: export_defs)
  have p0: "spec_path (assets three_assets ! 0) = ''logos/Minimalist_Wordmark.png''"
    and p1: "spec_path (assets three_assets ! 1) = ''socials/Merch.png''"
    and p2: "spec_path (assets three_assets ! 2) = ''socials/Poster.png''"
    by (simp_all add: export_defs spec_path_def isSpace_def)
  have n: "length (assets three_assets) = 3" "map imageUrl (assets three_assets)
       = [''data:image/png;base64,AAAA'', ''data:image/png;base64,BBBB'',
          ''data:image/png;base64,CCCC'']"
    by (simp_all add: export_defs)
  have d: "distinct (map spec_path (assets three_assets))"
    by (simp add: export_defs spec_path_def isSpace_def)
  have f0: "fetchBlob second_fetch_fails 0 (imageUrl (assets three_assets ! 0))
              = Fulfilled ''data:image/png;base64,AAAA''"
    and f1: "fetchBlob second_fetch_fails 1 (imageUrl (assets three_assets ! 1)) = Rejected ''Failed to fetch''"
    and f2: "fetchBlob second_fetch_fails 2 (imageUrl (assets three_assets ! 2))
              = Fulfilled ''data:image/png;base64,CCCC''"
    by (simp_all add: export_defs)
  note T = handleDownloadZip_isolates_failed_fetch [OF h]
  let ?fs = "files (handleDownloadZip second_fetch_fails three_assets)"
  have fet: "fetched (handleDownloadZip second_fetch_fails three_assets) = map imageUrl (assets three_assets)"
    using T by (elim conjE)
  have keys: "fst ` set ?fs = insert ''style-guide.json''
                   {spec_path (assets three_assets ! j) | j. j < length (assets three_assets)
                      \<and> \<not> is_rejected (fetchBlob second_fetch_fails j (imageUrl (assets three_assets ! j)))}"
    using T by (elim conjE)
  have "\<forall>j < length (assets three_assets).
                   map_of ?fs (spec_path (assets three_assets ! j))
                     = (case fetchBlob second_fetch_fails j (imageUrl (assets three_assets ! j)) of
                          Fulfilled blob \<Rightarrow> Some (ImageBlob blob)
                        | Rejected m \<Rightarrow> None)"
    using T d by (elim conjE) (erule impE, assumption+)
  then have all: "\<And>j. j < 3 \<Longrightarrow> map_of ?fs (spec_path (assets three_assets ! j))
                     = (case fetchBlob second_fetch_fails j (imageUrl (assets three_assets ! j)) of
                          Fulfilled blob \<Rightarrow> Some (ImageBlob blob)
                        | Rejected m \<Rightarrow> None)"
    unfolding n(1) by blast
  have m0: "map_of ?fs ''logos/Minimalist_Wordmark.png'' = Some (ImageBlob ''data:image/png;base64,AAAA'')"
    using all [of 0] p0 f0 by simp
  have m1: "map_of ?fs ''socials/Merch.png'' = None"
    using all [of 1] p1 f1 by simp
  have m2: "map_of ?fs ''socials/Poster.png'' = Some (ImageBlob ''data:image/png;base64,CCCC'')"
    using all [of 2] p2 f2 by simp
  have "{spec_path (assets three_assets ! j) | j. j < 3
           \<and> \<not> is_rejected (fetchBlob second_fetch_fails j (imageUrl (assets three_assets ! j)))}
        = {''logos/Minimalist_Wordmark.png'', ''socials/Poster.png''}"
  proof (intro set_eqI iffI)
    fix q
    assume "q \<in> {spec_path (assets three_assets ! j) | j. j < 3
           \<and> \<not> is_rejected (fetchBlob second_fetch_fails j (imageUrl (assets three_assets ! j)))}"
    then obtain j where j: "j < 3" "q = spec_path (assets three_assets ! j)"
      "\<not> is_rejected (fetchBlob second_fetch_fails j (imageUrl (assets three_assets ! j)))"
      by blast
    from j(1) consider "j = 0" | "j = 1" | "j = 2" by linarith
    then show "q \<in> {''logos/Minimalist_Wordmark.png'', ''socials/Poster.png''}"
      using j p0 p2 f1 by cases (simp_all add: is_rejected_def)
  next
    fix q
    assume "q \<in> {''logos/Minimalist_Wordmark.png'', ''socials/Poster.png''}"
    then consider "q = spec_path (assets three_assets ! 0)" | "q = spec_path (assets three_assets ! 2)"
      using p0 p2 by auto
    then show "q \<in> {spec_path (assets three_assets ! j) | j. j < 3
           \<and> \<not> is_rejected (fetchBlob second_fetch_fails j (imageUrl (assets three_assets ! j)))}"
    proof cases
      case 1
      have "(0::nat) < 3 \<and> q = spec_path (assets three_assets ! 0)
        \<and> \<not> is_rejected (fetchBlob second_fetch_fails 0 (imageUrl (assets three_assets ! 0)))"
        using 1 f0 by (simp add: is_rejected_def)
      then show ?thesis by blast
    next
      case 2
      have "(2::nat) < 3 \<and> q = spec_path (assets three_assets ! 2)
        \<and> \<not> is_rejected (fetchBlob second_fetch_fails 2 (imageUrl (assets three_assets ! 2)))"
        using 2 f2 by (simp add: is_rejected_def)
      then show ?thesis by blast
    qed
  qed
  then have ks: "fst ` set ?fs
       = {''style-guide.json'', ''logos/Minimalist_Wordmark.png'', ''socials/Poster.png''}"
    using keys unfolding n(1) by simp
  have raw: "map_of ?fs ''logos/Minimalist Wordmark.png'' = None"
    unfolding map_of_eq_None_iff ks by simp
  have sp: "assetPath \<lparr>assetId = ''logo-9'', type = ''logo'', subtype = spaced_subtype,
                    imageUrl = ''data:image/png;base64,DDDD'', description = []\<rparr>
       = ''logos/Dark_Mode_App_Icon.png''"
    by (simp add: assetPath_def sanitize_def spaced_subtype_def isSpace_def)
  show ?thesis
    using h d fet n(2) m0 m1 m2 ks raw sp by simp
qed

text \<open>
  C10. Without a style, or with no assets, the export returns at once: no archive object is
  created, nothing is fetched, nothing is saved, and the application state is unchanged.
\<close>

theorem handleDownloadZip_guard:
  assumes "brandStyle w = None \<or> assets w = []"
  shows "handleDownloadZip env w
           = \<lparr>zipCreated = False, folderName = None, files = [], fetched = [], saved = None, app = w\<rparr>"
  using assms by (auto simp: handleDownloadZip_def Let_def split: option.splits)

theorem handleDownloadZip_guard_witness:
  "(brandStyle initial_app = None \<or> assets initial_app = [])
   \<and> handleDownloadZip second_fetch_fails initial_app
       = \<lparr>zipCreated = False, folderName = None, files = [], fetched = [], saved = None,
          app = initial_app\<rparr>"
proof -
  have h: "brandStyle initial_app = None \<or> assets initial_app = []"
    by (simp add: initial_app_def)
  show ?thesis
    using h handleDownloadZip_guard [OF h, of second_fetch_fails] by blast
qed

section \<open>Properties of the style extraction\<close>

lemma fetchScreenshot_actions:
  "set (actions (fetchScreenshotBase64 env url))
     \<subseteq> {Request (ScreenshotFetch (screenshotUrl url)), Cancel (ScreenshotFetch (screenshotUrl url)),
         Console ''Screenshot fetch failed or timed out, falling back to text analysis:''}"
  by (auto simp: fetchScreenshotBase64_def screenshot_catch_def Let_def
      split: fetch_behaviour.splits body.splits reader_result.splits option.splits if_splits)

lemma fetchScreenshot_fallback:
  assumes "capture_fails (screenshotService env (screenshotUrl url))"
    and "\<not> body_stalls (screenshotService env (screenshotUrl url))"
  shows "outcome (fetchScreenshotBase64 env url) = Some None"
  using assms
  by (auto simp: capture_fails_def body_stalls_def fetchScreenshotBase64_def screenshot_catch_def
      Let_def split: fetch_behaviour.splits body.splits)

lemma critical_simps:
  "outcome (critical ls acts m) = Some (Inl m)" "actions (critical ls acts m) = acts"
  by (simp_all add: critical_def)

lemma handleResponse_outcome:
  "outcome (handleResponse ls acts x) =
     (case x of
        None \<Rightarrow> Some (Inl ''Failed to analyze brand.'')
      | Some t \<Rightarrow>
          if t = [] then Some (Inl ''Failed to analyze brand.'')
          else (case JSON_parse (cleanResponse t) of
                  Some v \<Rightarrow> Some (Inr v)
                | None \<Rightarrow> Some (Inl ''Failed to parse brand analysis results.'')))"
  by (simp add: handleResponse_def critical_def Let_def split: option.splits)

lemma handleResponse_actions:
  "set (actions (handleResponse ls acts x)) \<subseteq> set acts \<union> {Console ''Failed to parse JSON response:''}"
  by (auto simp: handleResponse_def critical_def Let_def split: option.splits)

lemma awaitGemini_actions:
  "set acts \<subseteq> set (actions (awaitGemini env ps ls acts))
   \<and> set (actions (awaitGemini env ps ls acts)) \<subseteq> set acts \<union> {Console ''Failed to parse JSON response:''}"
  using handleResponse_actions [of ls acts]
  by (auto simp: awaitGemini_def critical_def handleResponse_def Let_def
      split: gemini_behaviour.splits option.splits)

lemma analyze_after_capture:
  assumes "apiKey env = Some key" "key \<noteq> []" "outcome (fetchScreenshotBase64 env url) = Some shot"
  shows "\<exists>ls. analyzeBrandFromUrl env url
           = awaitGemini env (buildParts url shot) ls
               (actions (fetchScreenshotBase64 env url) @ [Request (GenerateContent (buildParts url shot))])"
  using assms by (auto simp: analyzeBrandFromUrl_def Let_def)

lemma analyze_actions:
  assumes "apiKey env = Some key" "key \<noteq> []" "outcome (fetchScreenshotBase64 env url) = Some shot"
  shows "Request (GenerateContent (buildParts url shot)) \<in> set (actions (analyzeBrandFromUrl env url))"
    and "Request (GenerateContent ps) \<in> set (actions (analyzeBrandFromUrl env url))
           \<Longrightarrow> ps = buildParts url shot"
    and "Cancel (GenerateContent ps) \<notin> set (actions (analyzeBrandFromUrl env url))"
proof -
  obtain ls where eq: "analyzeBrandFromUrl env url
           = awaitGemini env (buildParts url shot) ls
               (actions (fetchScreenshotBase64 env url) @ [Request (GenerateContent (buildParts url shot))])"
    using analyze_after_capture [OF assms] by blast
  let ?acts = "actions (fetchScreenshotBase64 env url) @ [Request (GenerateContent (buildParts url shot))]"
  note A = awaitGemini_actions [of ?acts env "buildParts url shot" ls]
  note S = fetchScreenshot_actions [of env url]
  show "Request (GenerateContent (buildParts url shot)) \<in> set (actions (analyzeBrandFromUrl env url))"
    unfolding eq using A by auto
  show "ps = buildParts url shot"
    if "Request (GenerateContent ps) \<in> set (actions (analyzeBrandFromUrl env url))"
    using that A S unfolding eq by auto
  show "Cancel (GenerateContent ps) \<notin> set (actions (analyzeBrandFromUrl env url))"
    using A S unfolding eq by auto
qed

lemma analyze_outcome:
  assumes "apiKey env = Some key" "key \<noteq> []" "outcome (fetchScreenshotBase64 env url) = Some shot"
  shows "outcome (analyzeBrandFromUrl env url) =
           (case generateContent env (buildParts url shot) of
              Unsettled \<Rightarrow> Some (Inl ''Gemini API timed out after 40s'')
            | Rejects t m \<Rightarrow> Some (Inl (if t < 40000 then m else ''Gemini API timed out after 40s''))
            | Resolves t x \<Rightarrow>
                if t < 40000 then outcome (handleResponse [] [] x)
                else Some (Inl ''Gemini API timed out after 40s''))"
proof -
  obtain ls where eq: "analyzeBrandFromUrl env url
           = awaitGemini env (buildParts url shot) ls
               (actions (fetchScreenshotBase64 env url) @ [Request (GenerateContent (buildParts url shot))])"
    using analyze_after_capture [OF assms] by blast
  show ?thesis
    unfolding eq
    by (simp add: awaitGemini_def critical_simps handleResponse_outcome Let_def
        split: gemini_behaviour.splits)
qed

lemma analyze_late_is_unsettled:
  assumes "generateContent env (buildParts url shot) = Unsettled
           \<or> (\<exists>t x. 40000 < t \<and> generateContent env (buildParts url shot) = Resolves t x)
           \<or> (\<exists>t m. 40000 < t \<and> generateContent env (buildParts url shot) = Rejects t m)"
    and "outcome (fetchScreenshotBase64 env url) = Some shot"
  shows "analyzeBrandFromUrl env url = analyzeBrandFromUrl (env\<lparr>generateContent := \<lambda>ps. Unsettled\<rparr>) url"
proof -
  have same: "fetchScreenshotBase64 (env\<lparr>generateContent := \<lambda>ps. Unsettled\<rparr>) url = fetchScreenshotBase64 env url"
    by (simp add: fetchScreenshotBase64_def)
  have "awaitGemini env (buildParts url shot) ls acts
          = awaitGemini (env\<lparr>generateContent := \<lambda>ps. Unsettled\<rparr>) (buildParts url shot) ls acts" for ls acts
    using assms(1) by (auto simp: awaitGemini_def Let_def)
  then show ?thesis
    using assms(2) by (simp add: analyzeBrandFromUrl_def same Let_def split: option.splits)
qed

lemma env_with_simps:
  "apiKey (env_with fb gb) = Some ''test-key''" "generateContent (env_with fb gb) ps = gb"
  "screenshotService (env_with fb gb) target = fb"
  by (simp_all add: env_with_def)

lemma capture_fails_Silent: "capture_fails Silent" "\<not> body_stalls Silent"
  by (simp_all add: capture_fails_def body_stalls_def)

text \<open>
  The 8 second timer bounds the wait for the response only: when the response arrives in
  time with a success status and its body never finishes loading, the capture stage never
  settles, and neither does the extraction; the analysis collaborator is not called.
\<close>

lemma analyzeBrandFromUrl_stalled_body:
  assumes "apiKey env = Some key" "key \<noteq> []"
    and "screenshotService env (screenshotUrl url) = Responds t resp"
    and "t < 8000" "200 \<le> status resp" "status resp \<le> 299" "body resp = BodyStalls"
  shows "outcome (analyzeBrandFromUrl env url) = None
         \<and> actions (analyzeBrandFromUrl env url) = [Request (ScreenshotFetch (screenshotUrl url))]"
  using assms by (simp add: analyzeBrandFromUrl_def fetchScreenshotBase64_def Let_def)

lemma buildParts_text:
  "\<exists>intro. last (buildParts url shot) = TextPart (intro @ promptFormat)"
  by (auto simp: buildParts_def split: option.splits)

lemma buildParts_no_image:
  "buildParts url None = [TextPart (promptIntro url @ promptSearch @ promptFormat)]"
  by (simp add: buildParts_def)

lemmas json_defs =
  JSON_parse_def isJsonSpace_def punctuation_def emit_def parse_step_def start_value_def
  close_container_def member_name_def isDigit_def isControl_def numberStep_def numberComplete_def

lemmas clean_defs = cleanResponse_def trim_def isSpace_def dropNewline_def

lemma parse_empty_object: "JSON_parse (cleanResponse ''{}'') = Some (JObject [])"
  by (simp add: json_defs clean_defs)

lemma parse_prose: "JSON_parse (cleanResponse ''I could not analyze this site.'') = None"
  by (simp add: json_defs clean_defs)

lemma clean_fenced:
  \<open>cleanResponse fenced_descriptor =
     ''{"brandName": "Acme", "themeDescription": "Plain",\<newline>'' @
     '' "dominantColors": ["#000000", "#FFFFFF", "#ff0000", "#00ff00", "#0000FF"],\<newline>'' @
     '' "fontStyle": "Sans", "layoutVibe": "Grid"}''\<close>
  by (simp add: fenced_descriptor_def clean_defs)

lemma parse_fenced: "JSON_parse (cleanResponse fenced_descriptor) = Some acme_descriptor"
  unfolding clean_fenced by (simp add: json_defs acme_descriptor_def)

lemma acme_meets_schema: "spec_schema acme_descriptor"
  by (simp add: spec_schema_def acme_descriptor_def isStringMember_def member_def isHexString_def
      spec_valid_hex_def isHexDigit_def)

text \<open>
  C3, as the code has it. The object with its five fields is asked for in the prompt: the
  text part of every request ends with the format instructions. The response is not checked
  against it. When the key is configured, the capture stage has settled and the collaborator
  resolves before the timer with non-empty text, that text, without its code fences and
  trimmed, is handed to \<open>JSON.parse\<close>: any JSON value is returned unchanged as the style
  descriptor, and only a text that is not JSON fails the run, with the parse error.
\<close>

theorem analyzeBrandFromUrl_returns_parsed_value:
  assumes "apiKey env = Some key" "key \<noteq> []"
    and "outcome (fetchScreenshotBase64 env url) = Some shot"
    and "generateContent env (buildParts url shot) = Resolves t (Some tx)"
    and "t < 40000" "tx \<noteq> []"
  shows "outcome (analyzeBrandFromUrl env url)
           = (case JSON_parse (cleanResponse tx) of
                Some v \<Rightarrow> Some (Inr v)
              | None \<Rightarrow> Some (Inl ''Failed to parse brand analysis results.''))
         \<and> (\<exists>intro. last (buildParts url shot) = TextPart (intro @ promptFormat))"
  using assms(4-6) buildParts_text [of url shot]
  unfolding analyze_outcome [OF assms(1-3)]
  by (simp add: handleResponse_outcome)

theorem analyzeBrandFromUrl_returns_parsed_value_witness:
  "apiKey (env_with Silent (Resolves 1200 (Some fenced_descriptor))) = Some ''test-key''
   \<and> ''test-key'' \<noteq> []
   \<and> outcome (fetchScreenshotBase64 (env_with Silent (Resolves 1200 (Some fenced_descriptor))) ''stripe.com'')
       = Some None
   \<and> generateContent (env_with Silent (Resolves 1200 (Some fenced_descriptor)))
         (buildParts ''stripe.com'' None) = Resolves 1200 (Some fenced_descriptor)
   \<and> (1200 :: nat) < 40000
   \<and> fenced_descriptor \<noteq> []
   \<and> outcome (analyzeBrandFromUrl (env_with Silent (Resolves 1200 (Some fenced_descriptor))) ''stripe.com'')
       = Some (Inr acme_descriptor)
   \<and> spec_schema acme_descriptor"
proof -
  let ?env = "env_with Silent (Resolves 1200 (Some fenced_descriptor))"
  have k: "apiKey ?env = Some ''test-key''" "''test-key'' \<noteq> []"
    by (simp_all add: env_with_simps)
  have c: "outcome (fetchScreenshotBase64 ?env ''stripe.com'') = Some None"
    by (rule fetchScreenshot_fallback) (simp_all add: env_with_simps capture_fails_Silent)
  have g: "generateContent ?env (buildParts ''stripe.com'' None) = Resolves 1200 (Some fenced_descriptor)"
    by (simp add: env_with_simps)
  have t: "(1200 :: nat) < 40000" by simp
  have n: "fenced_descriptor \<noteq> []" by (simp add: fenced_descriptor_def)
  show ?thesis
    using analyzeBrandFromUrl_returns_parsed_value [OF k c g t n] k c g n
    by (simp add: parse_fenced acme_meets_schema)
qed

text \<open>
  C3 as stated fails: the collaborator answers \<open>{}\<close>, an object with none of the required
  fields, and it is returned as the style descriptor.
\<close>

theorem analyzeBrandFromUrl_accepts_empty_object:
  "outcome (analyzeBrandFromUrl (env_with Silent (Resolves 1200 (Some ''{}''))) ''stripe.com'')
     = Some (Inr (JObject []))
   \<and> \<not> spec_schema (JObject [])"
proof -
  let ?env = "env_with Silent (Resolves 1200 (Some ''{}''))"
  have k: "apiKey ?env = Some ''test-key''" "''test-key'' \<noteq> []"
    by (simp_all add: env_with_simps)
  have c: "outcome (fetchScreenshotBase64 ?env ''stripe.com'') = Some None"
    by (rule fetchScreenshot_fallback) (simp_all add: env_with_simps capture_fails_Silent)
  have "outcome (analyzeBrandFromUrl ?env ''stripe.com'') = Some (Inr (JObject []))"
    unfolding analyze_outcome [OF k c]
    by (simp add: env_with_simps handleResponse_outcome parse_empty_object)
  moreover have "\<not> spec_schema (JObject [])"
    by (simp add: spec_schema_def isStringMember_def member_def)
  ultimately show ?thesis by simp
qed

text \<open>
  C4. With the key configured and the capture stage settled: when the analysis collaborator
  has not settled when the 40 second timer fires, the run fails with
  \<open>Gemini API timed out after 40s\<close>, exactly as if the collaborator never answered, so a late
  answer has no effect. When the collaborator resolves before the timer with a text that is
  not JSON once fences are removed, the run fails with
  \<open>Failed to parse brand analysis results.\<close> (with \<open>Failed to analyze brand.\<close> when the text
  is empty or missing), which is never the timeout error. The request to the collaborator is
  sent and no action cancels it.
\<close>

theorem analyzeBrandFromUrl_timeout_distinct_from_parse_error:
  assumes "apiKey env = Some key" "key \<noteq> []"
    and "outcome (fetchScreenshotBase64 env url) = Some shot"
  shows "(generateContent env (buildParts url shot) = Unsettled
            \<or> (\<exists>t x. 40000 < t \<and> generateContent env (buildParts url shot) = Resolves t x)
            \<or> (\<exists>t m. 40000 < t \<and> generateContent env (buildParts url shot) = Rejects t m)
          \<longrightarrow> outcome (analyzeBrandFromUrl env url) = Some (Inl ''Gemini API timed out after 40s'')
              \<and> analyzeBrandFromUrl env url
                  = analyzeBrandFromUrl (env\<lparr>generateContent := \<lambda>ps. Unsettled\<rparr>) url)
         \<and> (\<forall>t x. generateContent env (buildParts url shot) = Resolves t x \<and> t < 40000
                \<and> (\<forall>tx. x = Some tx \<longrightarrow> JSON_parse (cleanResponse tx) = None)
              \<longrightarrow> outcome (analyzeBrandFromUrl env url)
                    = Some (Inl (if x = None \<or> x = Some [] then ''Failed to analyze brand.''
                                 else ''Failed to parse brand analysis results.''))
                  \<and> outcome (analyzeBrandFromUrl env url)
                    \<noteq> Some (Inl ''Gemini API timed out after 40s''))
         \<and> Request (GenerateContent (buildParts url shot)) \<in> set (actions (analyzeBrandFromUrl env url))
         \<and> (\<forall>ps. Cancel (GenerateContent ps) \<notin> set (actions (analyzeBrandFromUrl env url)))"
proof (intro conjI impI allI)
  assume late: "generateContent env (buildParts url shot) = Unsettled
            \<or> (\<exists>t x. 40000 < t \<and> generateContent env (buildParts url shot) = Resolves t x)
            \<or> (\<exists>t m. 40000 < t \<and> generateContent env (buildParts url shot) = Rejects t m)"
  then show "outcome (analyzeBrandFromUrl env url) = Some (Inl ''Gemini API timed out after 40s'')"
    unfolding analyze_outcome [OF assms] by auto
  show "analyzeBrandFromUrl env url = analyzeBrandFromUrl (env\<lparr>generateContent := \<lambda>ps. Unsettled\<rparr>) url"
    by (rule analyze_late_is_unsettled [OF late assms(3)])
next
  fix t x
  assume a: "generateContent env (buildParts url shot) = Resolves t x \<and> t < 40000
                \<and> (\<forall>tx. x = Some tx \<longrightarrow> JSON_parse (cleanResponse tx) = None)"
  then show e: "outcome (analyzeBrandFromUrl env url)
                    = Some (Inl (if x = None \<or> x = Some [] then ''Failed to analyze brand.''
                                 else ''Failed to parse brand analysis results.''))"
    unfolding analyze_outcome [OF assms]
    by (cases x) (simp_all add: handleResponse_outcome)
  show "outcome (analyzeBrandFromUrl env url) \<noteq> Some (Inl ''Gemini API timed out after 40s'')"
    unfolding e by simp
next
  show "Request (GenerateContent (buildParts url shot)) \<in> set (actions (analyzeBrandFromUrl env url))"
    by (rule analyze_actions(1) [OF assms])
next
  fix ps
  show "Cancel (GenerateContent ps) \<notin> set (actions (analyzeBrandFromUrl env url))"
    by (rule analyze_actions(3) [OF assms])
qed

theorem analyzeBrandFromUrl_timeout_distinct_from_parse_error_witness:
  "apiKey (env_with Silent Unsettled) = Some ''test-key''
   \<and> ''test-key'' \<noteq> []
   \<and> outcome (fetchScreenshotBase64 (env_with Silent Unsettled) ''stripe.com'') = Some None
   \<and> generateContent (env_with Silent Unsettled) (buildParts ''stripe.com'' None) = Unsettled
   \<and> outcome (analyzeBrandFromUrl (env_with Silent Unsettled) ''stripe.com'')
       = Some (Inl ''Gemini API timed out after 40s'')
   \<and> outcome (fetchScreenshotBase64
         (env_with Silent (Resolves 5 (Some ''I could not analyze this site.''))) ''stripe.com'')
       = Some None
   \<and> generateContent (env_with Silent (Resolves 5 (Some ''I could not analyze this site.'')))
         (buildParts ''stripe.com'' None) = Resolves 5 (Some ''I could not analyze this site.'')
   \<and> (5 :: nat) < 40000
   \<and> JSON_parse (cleanResponse ''I could not analyze this site.'') = None
   \<and> outcome (analyzeBrandFromUrl
         (env_with Silent (Resolves 5 (Some ''I could not analyze this site.''))) ''stripe.com'')
       = Some (Inl ''Failed to parse brand analysis results.'')"
proof -
  let ?never = "env_with Silent Unsettled"
  let ?prose = "env_with Silent (Resolves 5 (Some ''I could not analyze this site.''))"
  have k: "apiKey (env_with Silent gb) = Some ''test-key''" "''test-key'' \<noteq> []" for gb
    by (simp_all add: env_with_simps)
  have c: "outcome (fetchScreenshotBase64 (env_with Silent gb) ''stripe.com'') = Some None" for gb
    by (rule fetchScreenshot_fallback) (simp_all add: env_with_simps capture_fails_Silent)
  have g1: "generateContent ?never (buildParts ''stripe.com'' None) = Unsettled"
    by (simp add: env_with_simps)
  have g2: "generateContent ?prose (buildParts ''stripe.com'' None)
              = Resolves 5 (Some ''I could not analyze this site.'')"
    by (simp add: env_with_simps)
  note T1 = analyzeBrandFromUrl_timeout_distinct_from_parse_error [OF k c, of Unsettled]
  note T2 = analyzeBrandFromUrl_timeout_distinct_from_parse_error
              [OF k c, of "Resolves 5 (Some ''I could not analyze this site.'')"]
  have r1: "outcome (analyzeBrandFromUrl ?never ''stripe.com'') = Some (Inl ''Gemini API timed out after 40s'')"
    using T1 g1 by blast
  have "outcome (analyzeBrandFromUrl ?prose ''stripe.com'')
          = Some (Inl (if Some ''I could not analyze this site.'' = None
                          \<or> Some ''I could not analyze this site.'' = Some []
                       then ''Failed to analyze brand.''
                       else ''Failed to parse brand analysis results.''))"
    using T2 g2 parse_prose by auto
  then have r2: "outcome (analyzeBrandFromUrl ?prose ''stripe.com'')
          = Some (Inl ''Failed to parse brand analysis results.'')"
    by simp
  show ?thesis
    using k c g1 g2 r1 r2 parse_prose by simp
qed

text \<open>
  A failed capture other than a stalled body does not fail the run. With the key configured,
  the capture stage yields no visual context, the one request sent to the analysis
  collaborator consists of the search prompt alone, without an image part, and the run
  settles. When the collaborator answers in time with a JSON text, its value is the result.
\<close>

lemma analyzeBrandFromUrl_falls_back_unless_body_stalls:
  assumes "apiKey env = Some key" "key \<noteq> []"
    and "capture_fails (screenshotService env (screenshotUrl url))"
    and "\<not> body_stalls (screenshotService env (screenshotUrl url))"
  shows "outcome (fetchScreenshotBase64 env url) = Some None
         \<and> Request (GenerateContent [TextPart (promptIntro url @ promptSearch @ promptFormat)])
              \<in> set (actions (analyzeBrandFromUrl env url))
         \<and> (\<forall>ps mt d. Request (GenerateContent ps) \<in> set (actions (analyzeBrandFromUrl env url))
               \<longrightarrow> InlineData mt d \<notin> set ps)
         \<and> outcome (analyzeBrandFromUrl env url) \<noteq> None
         \<and> (\<forall>t tx v.
               generateContent env [TextPart (promptIntro url @ promptSearch @ promptFormat)]
                 = Resolves t (Some tx)
               \<and> t < 40000 \<and> tx \<noteq> [] \<and> JSON_parse (cleanResponse tx) = Some v
               \<longrightarrow> outcome (analyzeBrandFromUrl env url) = Some (Inr v))"
proof -
  have c: "outcome (fetchScreenshotBase64 env url) = Some None"
    by (rule fetchScreenshot_fallback [OF assms(3,4)])
  note A = analyze_actions [OF assms(1,2) c]
  note O = analyze_outcome [OF assms(1,2) c]
  have req: "Request (GenerateContent [TextPart (promptIntro url @ promptSearch @ promptFormat)])
              \<in> set (actions (analyzeBrandFromUrl env url))"
    using A(1) by (simp add: buildParts_no_image)
  have noimg: "InlineData mt d \<notin> set ps"
    if "Request (GenerateContent ps) \<in> set (actions (analyzeBrandFromUrl env url))" for ps mt d
    using A(2) [OF that] by (simp add: buildParts_no_image)
  have settles: "outcome (analyzeBrandFromUrl env url) \<noteq> None"
    unfolding O
    by (simp add: handleResponse_outcome split: gemini_behaviour.splits option.splits)
  show ?thesis
  proof (intro conjI allI impI)
    fix t tx v
    assume "generateContent env [TextPart (promptIntro url @ promptSearch @ promptFormat)]
                 = Resolves t (Some tx)
               \<and> t < 40000 \<and> tx \<noteq> [] \<and> JSON_parse (cleanResponse tx) = Some v"
    then show "outcome (analyzeBrandFromUrl env url) = Some (Inr v)"
      unfolding O by (simp add: buildParts_no_image handleResponse_outcome)
  next
    fix ps mt d
    assume "Request (GenerateContent ps) \<in> set (actions (analyzeBrandFromUrl env url))"
    then show "InlineData mt d \<notin> set ps" by (rule noimg)
  qed (rule c req settles)+
qed

lemma analyzeBrandFromUrl_falls_back_on_404:
  "capture_fails not_found
   \<and> outcome (analyzeBrandFromUrl (env_with not_found (Resolves 1200 (Some fenced_descriptor)))
        ''stripe.com'') = Some (Inr acme_descriptor)"
proof -
  let ?env = "env_with not_found (Resolves 1200 (Some fenced_descriptor))"
  have k: "apiKey ?env = Some ''test-key''" "''test-key'' \<noteq> []"
    by (simp_all add: env_with_simps)
  have f: "capture_fails (screenshotService ?env (screenshotUrl ''stripe.com''))"
    "\<not> body_stalls (screenshotService ?env (screenshotUrl ''stripe.com''))"
    by (simp_all add: env_with_simps capture_fails_def body_stalls_def not_found_def)
  have g: "generateContent ?env [TextPart (promptIntro ''stripe.com'' @ promptSearch @ promptFormat)]
             = Resolves 1200 (Some fenced_descriptor)"
    by (simp add: env_with_simps)
  have n: "fenced_descriptor \<noteq> []" by (simp add: fenced_descriptor_def)
  note T = analyzeBrandFromUrl_falls_back_unless_body_stalls [OF k f]
  have "outcome (analyzeBrandFromUrl ?env ''stripe.com'') = Some (Inr acme_descriptor)"
    using T g n parse_fenced by auto
  then show ?thesis
    using f(1) by (simp add: env_with_simps)
qed

text \<open>
  C5. A capture that fails must not fail or block the run: extract falls back to no visual
  context and still returns the descriptor of an analysis collaborator that succeeds. The
  code does so for every failed capture but one (\<open>analyzeBrandFromUrl_falls_back_unless_body_stalls\<close>).
  Here the screenshot service answers after 350 milliseconds with status 200 and the body
  never finishes, so no image arrives within 8 seconds, and the analysis collaborator would
  answer with a well-formed descriptor. The abort timer has been cleared when the response
  arrived, so nothing ends the wait for the body: the capture never settles, extract never
  falls back, the analysis collaborator is never called, and extract never settles.
\<close>

theorem analyzeBrandFromUrl_hangs_on_stalled_body:
  "capture_fails
     (screenshotService (env_with stalled_image (Resolves 1200 (Some fenced_descriptor)))
        (screenshotUrl ''stripe.com''))
   \<and> JSON_parse (cleanResponse fenced_descriptor) = Some acme_descriptor
   \<and> outcome (fetchScreenshotBase64
        (env_with stalled_image (Resolves 1200 (Some fenced_descriptor))) ''stripe.com'') = None
   \<and> outcome (analyzeBrandFromUrl
        (env_with stalled_image (Resolves 1200 (Some fenced_descriptor))) ''stripe.com'') = None
   \<and> actions (analyzeBrandFromUrl
        (env_with stalled_image (Resolves 1200 (Some fenced_descriptor))) ''stripe.com'')
       = [Request (ScreenshotFetch (screenshotUrl ''stripe.com''))]"
proof -
  let ?env = "env_with stalled_image (Resolves 1200 (Some fenced_descriptor))"
  have k: "apiKey ?env = Some ''test-key''" "''test-key'' \<noteq> []"
    by (simp_all add: env_with_simps)
  have s: "screenshotService ?env (screenshotUrl ''stripe.com'')
             = Responds 350 \<lparr>status = 200, body = BodyStalls\<rparr>"
    by (simp add: env_with_simps stalled_image_def)
  have f: "capture_fails (screenshotService ?env (screenshotUrl ''stripe.com''))"
    unfolding s by (simp add: capture_fails_def)
  have c: "fetchScreenshotBase64 ?env ''stripe.com''
             = \<lparr>logged = [''Initiating screenshot capture for stripe.com...'',
                           ''Sending request to screenshot service...''],
                 actions = [Request (ScreenshotFetch (screenshotUrl ''stripe.com''))],
                 outcome = None\<rparr>"
    by (simp add: fetchScreenshotBase64_def Let_def s)
  have a: "analyzeBrandFromUrl ?env ''stripe.com''
             = \<lparr>logged = [''Step 1: Fetching visual context...'',
                           ''Initiating screenshot capture for stripe.com...'',
                           ''Sending request to screenshot service...''],
                 actions = [Request (ScreenshotFetch (screenshotUrl ''stripe.com''))],
                 outcome = None\<rparr>"
    by (simp add: analyzeBrandFromUrl_def c env_with_simps)
  show ?thesis
    using f parse_fenced unfolding c a by simp
qed

end
